theory Spec2Isabelle
  imports Complex_Main "HOL-Library.AList" "HOL-Library.Char_ord" "HOL-Library.List_Lexorder"
begin

section \<open>Data model of the storage engine\<close>

text \<open>
  The engine of \<^verbatim>\<open>src/redis-sqlite.ts\<close> keeps four SQL tables. A table is the
  list of its rows in rowid order; a column that may be NULL is an \<open>option\<close>.
  Timestamps are milliseconds (\<^verbatim>\<open>Date.now()\<close>), passed to every operation that
  reads the clock as the argument \<open>now\<close>.
\<close>

record string_row =
  s_key :: string
  s_value :: string
  s_expiry :: "int option"

record hash_row =
  h_key :: string
  h_field :: string
  h_value :: string
  h_expiry :: "int option"

record list_row =
  l_key :: string
  l_index :: int
  l_value :: string
  l_expiry :: "int option"

record set_row =
  m_key :: string
  m_member :: string
  m_expiry :: "int option"

record tables =
  string_store :: "string_row list"
  hash_store :: "hash_row list"
  list_store :: "list_row list"
  set_store :: "set_row list"

definition empty_tables :: tables where
  "empty_tables = \<lparr>string_store = [], hash_store = [], list_store = [], set_store = []\<rparr>"

text \<open>
  The sqlite connection: the visible tables and, while a transaction is open, the
  snapshot taken at \<^verbatim>\<open>BEGIN TRANSACTION\<close> that \<^verbatim>\<open>ROLLBACK\<close> restores.
\<close>

record database =
  tbl :: tables
  tx :: "tables option"

datatype error =
    DatabaseNotInitialized
  | WrongType
  | NoTransactionInProgress
  | WrongNumberOfArguments
  | AuthNoPassword
  | AuthInvalidPassword
  | SqlNestedTransaction
  | SqlCannotCommit
  | SqlCannotRollback
  | SqlUniqueConstraint

fun message :: "error \<Rightarrow> string" where
  "message DatabaseNotInitialized = ''Database not initialized''"
| "message WrongType = ''WRONGTYPE Operation against a key holding the wrong kind of value''"
| "message NoTransactionInProgress = ''No transaction in progress''"
| "message WrongNumberOfArguments = ''Wrong number of arguments for HMSET''"
| "message AuthNoPassword = ''ERR Client sent AUTH, but no password is set''"
| "message AuthInvalidPassword = ''ERR invalid password''"
| "message SqlNestedTransaction = ''SQLITE_ERROR: cannot start a transaction within a transaction''"
| "message SqlCannotCommit = ''SQLITE_ERROR: cannot commit - no transaction is active''"
| "message SqlCannotRollback = ''SQLITE_ERROR: cannot rollback - no transaction is active''"
| "message SqlUniqueConstraint = ''SQLITE_CONSTRAINT: UNIQUE constraint failed''"

text \<open>
  A buffered command (\<^verbatim>\<open>{command, args}\<close>), the value a command resolves to, and an
  entry of the waiter map of BRPOPLPUSH: the promise's own \<^verbatim>\<open>resolve\<close> function or
  the wrapper closure built around it.
\<close>

datatype command =
    Set string string
  | Get string
  | Mget "string list"
  | Lpush string "string list"
  | Rpush string "string list"
  | Lrange string int int
  | Rpop string
  | Lpop string
  | Rpoplpush string string
  | Hset string string string
  | Hmset string "string list"
  | Hget string string
  | Hdel string "string list"
  | Del "string list"
  | Exists "string list"
  | Hmget string "string list"
  | Sismember string string
  | Smembers string
  | Sadd string "string list"
  | Srem string "string list"
  | Expire string int
  | Ttl string
  | Flushdb
  | Flushall
  | Info
  | Auth string

datatype reply =
    OK
  | Bulk "string option"
  | Integer int
  | Array "string option list"
  | Void
  | InfoReply "(string \<times> string) list"

datatype resolver = Resolve nat | Wrapper nat

record engine =
  db :: "database option"
  inTransaction :: bool
  transactionMode :: bool
  transactionCommands :: "command list"
  password :: "string option"
  isAuthenticated :: bool
  blockingOperations :: "(string \<times> resolver list) list"
  expiryCheckerId :: "nat option"

section \<open>SQL statements\<close>

text \<open>
  Only failures that have a cause inside the model are modelled: a nested
  \<^verbatim>\<open>BEGIN\<close>, a \<^verbatim>\<open>COMMIT\<close> or \<^verbatim>\<open>ROLLBACK\<close> without a transaction, a plain
  \<^verbatim>\<open>INSERT\<close> that repeats a primary key, and an \<^verbatim>\<open>UPDATE\<close> of the list index
  that meets an existing primary key at one of its rows.
\<close>

definition begin_transaction :: "database \<Rightarrow> error + database" where
  "begin_transaction d =
     (case tx d of
        Some t \<Rightarrow> Inl SqlNestedTransaction
      | None \<Rightarrow> Inr (d\<lparr>tx := Some (tbl d)\<rparr>))"

definition commit :: "database \<Rightarrow> error + database" where
  "commit d =
     (case tx d of
        None \<Rightarrow> Inl SqlCannotCommit
      | Some t \<Rightarrow> Inr (d\<lparr>tx := None\<rparr>))"

definition rollback :: "database \<Rightarrow> error + database" where
  "rollback d =
     (case tx d of
        None \<Rightarrow> Inl SqlCannotRollback
      | Some t \<Rightarrow> Inr \<lparr>tbl = t, tx = None\<rparr>)"

text \<open>\<^verbatim>\<open>expiry IS NULL OR expiry > ?\<close>\<close>

definition live :: "int \<Rightarrow> int option \<Rightarrow> bool" where
  "live now e = (case e of None \<Rightarrow> True | Some t \<Rightarrow> now < t)"

text \<open>\<^verbatim>\<open>SELECT 1 FROM string_store WHERE key = ? AND (expiry IS NULL OR expiry > ?)\<close>\<close>

definition string_live :: "tables \<Rightarrow> string \<Rightarrow> int \<Rightarrow> bool" where
  "string_live T key now =
     list_ex (\<lambda>r. s_key r = key \<and> live now (s_expiry r)) (string_store T)"

text \<open>\<^verbatim>\<open>INSERT OR REPLACE INTO string_store (key, value) VALUES (?, ?)\<close>: the row with
  the same primary key is deleted and a new row is inserted; the column that is not
  listed, \<open>expiry\<close>, gets its default NULL.\<close>

definition replace_string :: "string \<Rightarrow> string \<Rightarrow> tables \<Rightarrow> tables" where
  "replace_string key v T =
     T\<lparr>string_store := filter (\<lambda>r. s_key r \<noteq> key) (string_store T)
          @ [\<lparr>s_key = key, s_value = v, s_expiry = None\<rparr>]\<rparr>"

text \<open>\<^verbatim>\<open>SELECT value FROM string_store WHERE key = ? AND (expiry IS NULL OR expiry > ?)\<close>\<close>

definition select_string :: "tables \<Rightarrow> string \<Rightarrow> int \<Rightarrow> string_row option" where
  "select_string T key now =
     find (\<lambda>r. s_key r = key \<and> live now (s_expiry r)) (string_store T)"

text \<open>
  The statements run through \<^verbatim>\<open>this.db\<close>. Every command checks the handle first,
  so the branches for a missing handle below are never taken after that check.
\<close>

definition db_run :: "(database \<Rightarrow> error + database) \<Rightarrow> engine \<Rightarrow> error + engine" where
  "db_run f s =
     (case db s of
        None \<Rightarrow> Inl DatabaseNotInitialized
      | Some d \<Rightarrow> (case f d of Inl e \<Rightarrow> Inl e | Inr d' \<Rightarrow> Inr (s\<lparr>db := Some d'\<rparr>)))"

definition tables_of :: "engine \<Rightarrow> tables" where
  "tables_of s = (case db s of None \<Rightarrow> empty_tables | Some d \<Rightarrow> tbl d)"

definition put_tables :: "tables \<Rightarrow> engine \<Rightarrow> engine" where
  "put_tables T s =
     (case db s of None \<Rightarrow> s | Some d \<Rightarrow> s\<lparr>db := Some (d\<lparr>tbl := T\<rparr>)\<rparr>)"

text \<open>
  \<^verbatim>\<open>if (!this.inTransaction && !this.transactionMode) { BEGIN; this.inTransaction = true }\<close>,
  the same guard around \<^verbatim>\<open>COMMIT\<close>, and the handler
  \<^verbatim>\<open>catch (error) { if (...) { ROLLBACK; this.inTransaction = false } throw error }\<close>.
\<close>

definition begin_guarded :: "engine \<Rightarrow> error + engine" where
  "begin_guarded s =
     (if \<not> inTransaction s \<and> \<not> transactionMode s
      then (case db_run begin_transaction s of
              Inl e \<Rightarrow> Inl e
            | Inr s' \<Rightarrow> Inr (s'\<lparr>inTransaction := True\<rparr>))
      else Inr s)"

definition commit_guarded :: "engine \<Rightarrow> error + engine" where
  "commit_guarded s =
     (if \<not> inTransaction s \<and> \<not> transactionMode s
      then (case db_run commit s of
              Inl e \<Rightarrow> Inl e
            | Inr s' \<Rightarrow> Inr (s'\<lparr>inTransaction := False\<rparr>))
      else Inr s)"

definition rollback_guarded :: "error \<Rightarrow> engine \<Rightarrow> (error + 'a) \<times> engine" where
  "rollback_guarded e s =
     (if \<not> inTransaction s \<and> \<not> transactionMode s
      then (case db_run rollback s of
              Inl e' \<Rightarrow> (Inl e', s)
            | Inr s' \<Rightarrow> (Inl e, s'\<lparr>inTransaction := False\<rparr>))
      else (Inl e, s))"

subsection \<open>List table\<close>

definition list_rows :: "tables \<Rightarrow> string \<Rightarrow> list_row list" where
  "list_rows T key = filter (\<lambda>r. l_key r = key) (list_store T)"

text \<open>\<^verbatim>\<open>SELECT COUNT(*) as count FROM list_store WHERE key = ?\<close>\<close>

definition list_count :: "tables \<Rightarrow> string \<Rightarrow> int" where
  "list_count T key = int (length (list_rows T key))"

text \<open>\<^verbatim>\<open>UPDATE list_store SET "index" = "index" + ? WHERE key = ?\<close>. sqlite updates
  the rows of the key one at a time, in rowid order, and checks the primary key
  (key, index) at each row against the table as it stands then: rows moved earlier have
  their new index, rows not yet reached their old one. \<open>shift_rows\<close> walks the
  table with the rows already passed in \<open>seen\<close>. When a row fails, the changes of the
  statement are undone and the statement throws.\<close>

fun shift_rows :: "int \<Rightarrow> string \<Rightarrow> list_row list \<Rightarrow> list_row list \<Rightarrow> list_row list option" where
  "shift_rows n key seen [] = Some seen"
| "shift_rows n key seen (r # rest) =
     (if l_key r = key
      then (if list_ex (\<lambda>x. l_key x = key \<and> l_index x = l_index r + n) (seen @ rest)
            then None
            else shift_rows n key (seen @ [r\<lparr>l_index := l_index r + n\<rparr>]) rest)
      else shift_rows n key (seen @ [r]) rest)"

definition shift_list :: "int \<Rightarrow> string \<Rightarrow> tables \<Rightarrow> error + tables" where
  "shift_list n key T =
     (case shift_rows n key [] (list_store T) of
        None \<Rightarrow> Inl SqlUniqueConstraint
      | Some rows \<Rightarrow> Inr (T\<lparr>list_store := rows\<rparr>))"

text \<open>\<^verbatim>\<open>INSERT INTO list_store (key, "index", value) VALUES (?, ?, ?)\<close>\<close>

definition insert_list :: "string \<Rightarrow> int \<Rightarrow> string \<Rightarrow> tables \<Rightarrow> error + tables" where
  "insert_list key i v T =
     (if list_ex (\<lambda>r. l_key r = key \<and> l_index r = i) (list_store T)
      then Inl SqlUniqueConstraint
      else Inr (T\<lparr>list_store := list_store T
                  @ [\<lparr>l_key = key, l_index = i, l_value = v, l_expiry = None\<rparr>]\<rparr>))"

text \<open>A loop of inserts; it stops at the first one that throws, keeping the rows
  inserted before.\<close>

fun insert_lists :: "string \<Rightarrow> (int \<times> string) list \<Rightarrow> tables \<Rightarrow> error option \<times> tables" where
  "insert_lists key [] T = (None, T)"
| "insert_lists key ((i, v) # rest) T =
     (case insert_list key i v T of
        Inl e \<Rightarrow> (Some e, T)
      | Inr T' \<Rightarrow> insert_lists key rest T')"

text \<open>\<^verbatim>\<open>... ORDER BY "index" DESC LIMIT 1\<close> and \<^verbatim>\<open>... ORDER BY "index" ASC LIMIT 1\<close>\<close>

fun greatest_row :: "list_row list \<Rightarrow> list_row option" where
  "greatest_row [] = None"
| "greatest_row (r # rs) =
     (case greatest_row rs of
        None \<Rightarrow> Some r
      | Some m \<Rightarrow> if l_index r < l_index m then Some m else Some r)"

fun least_row :: "list_row list \<Rightarrow> list_row option" where
  "least_row [] = None"
| "least_row (r # rs) =
     (case least_row rs of
        None \<Rightarrow> Some r
      | Some m \<Rightarrow> if l_index m < l_index r then Some m else Some r)"

text \<open>\<^verbatim>\<open>DELETE FROM list_store WHERE key = ? AND "index" = ?\<close>\<close>

definition delete_list_index :: "string \<Rightarrow> int \<Rightarrow> tables \<Rightarrow> tables" where
  "delete_list_index key i T =
     T\<lparr>list_store := filter (\<lambda>r. \<not> (l_key r = key \<and> l_index r = i)) (list_store T)\<rparr>"

text \<open>\<^verbatim>\<open>SELECT value FROM list_store WHERE key = ? AND "index" BETWEEN ? AND ?
  ORDER BY "index" ASC\<close>\<close>

definition select_range :: "tables \<Rightarrow> string \<Rightarrow> int \<Rightarrow> int \<Rightarrow> string list" where
  "select_range T key lo hi =
     map l_value (sort_key l_index
       (filter (\<lambda>r. l_key r = key \<and> lo \<le> l_index r \<and> l_index r \<le> hi) (list_store T)))"

subsection \<open>Hash table\<close>

text \<open>\<^verbatim>\<open>INSERT OR REPLACE INTO hash_store (key, field, value) VALUES (?, ?, ?)\<close>. The
  second component is sqlite's \<^verbatim>\<open>changes\<close> for the statement: it counts the inserted
  row; a row removed by the REPLACE conflict resolution is not counted.\<close>

definition replace_hash :: "string \<Rightarrow> string \<Rightarrow> string \<Rightarrow> tables \<Rightarrow> tables \<times> int" where
  "replace_hash key field v T =
     (T\<lparr>hash_store := filter (\<lambda>r. \<not> (h_key r = key \<and> h_field r = field)) (hash_store T)
          @ [\<lparr>h_key = key, h_field = field, h_value = v, h_expiry = None\<rparr>]\<rparr>, 1)"

text \<open>\<^verbatim>\<open>SELECT value FROM hash_store WHERE key = ? AND field = ? AND
  (expiry IS NULL OR expiry > ?)\<close>\<close>

definition select_hash :: "tables \<Rightarrow> string \<Rightarrow> string \<Rightarrow> int \<Rightarrow> string option" where
  "select_hash T key field now =
     map_option h_value
       (find (\<lambda>r. h_key r = key \<and> h_field r = field \<and> live now (h_expiry r)) (hash_store T))"

text \<open>\<^verbatim>\<open>DELETE FROM hash_store WHERE key = ? AND field IN (...)\<close>, with its
  \<^verbatim>\<open>changes\<close>.\<close>

definition delete_hash_fields :: "string \<Rightarrow> string list \<Rightarrow> tables \<Rightarrow> tables \<times> int" where
  "delete_hash_fields key fs T =
     (T\<lparr>hash_store := filter (\<lambda>r. \<not> (h_key r = key \<and> h_field r \<in> set fs)) (hash_store T)\<rparr>,
      int (length (filter (\<lambda>r. h_key r = key \<and> h_field r \<in> set fs) (hash_store T))))"

subsection \<open>Set table\<close>

text \<open>\<^verbatim>\<open>INSERT OR IGNORE INTO set_store (key, member) VALUES (?, ?)\<close>, with its
  \<^verbatim>\<open>changes\<close>.\<close>

definition insert_ignore_set :: "string \<Rightarrow> string \<Rightarrow> tables \<Rightarrow> tables \<times> int" where
  "insert_ignore_set key member T =
     (if list_ex (\<lambda>r. m_key r = key \<and> m_member r = member) (set_store T)
      then (T, 0)
      else (T\<lparr>set_store := set_store T
                @ [\<lparr>m_key = key, m_member = member, m_expiry = None\<rparr>]\<rparr>, 1))"

text \<open>\<^verbatim>\<open>SELECT member FROM set_store WHERE key = ? AND (expiry IS NULL OR expiry > ?)
  ORDER BY member\<close>\<close>

definition select_members :: "tables \<Rightarrow> string \<Rightarrow> int \<Rightarrow> string list" where
  "select_members T key now =
     sort (map m_member (filter (\<lambda>r. m_key r = key \<and> live now (m_expiry r)) (set_store T)))"

text \<open>\<^verbatim>\<open>DELETE FROM set_store WHERE key = ? AND member IN (...)\<close>, with its
  \<^verbatim>\<open>changes\<close>.\<close>

definition delete_set_members :: "string \<Rightarrow> string list \<Rightarrow> tables \<Rightarrow> tables \<times> int" where
  "delete_set_members key members T =
     (T\<lparr>set_store := filter (\<lambda>r. \<not> (m_key r = key \<and> m_member r \<in> set members)) (set_store T)\<rparr>,
      int (length (filter (\<lambda>r. m_key r = key \<and> m_member r \<in> set members) (set_store T))))"

subsection \<open>Statements that run over each of the four tables\<close>

datatype table_name = StringStore | HashStore | ListStore | SetStore

definition store_names :: "table_name list" where
  "store_names = [StringStore, HashStore, ListStore, SetStore]"

text \<open>The number of rows \<^verbatim>\<open>WHERE key = ?\<close> of a table.\<close>

fun count_key :: "table_name \<Rightarrow> string \<Rightarrow> tables \<Rightarrow> nat" where
  "count_key StringStore key T = length (filter (\<lambda>r. s_key r = key) (string_store T))"
| "count_key HashStore key T = length (filter (\<lambda>r. h_key r = key) (hash_store T))"
| "count_key ListStore key T = length (filter (\<lambda>r. l_key r = key) (list_store T))"
| "count_key SetStore key T = length (filter (\<lambda>r. m_key r = key) (set_store T))"

text \<open>\<^verbatim>\<open>DELETE FROM table WHERE key = ?\<close>\<close>

fun delete_key :: "table_name \<Rightarrow> string \<Rightarrow> tables \<Rightarrow> tables" where
  "delete_key StringStore key T = T\<lparr>string_store := filter (\<lambda>r. s_key r \<noteq> key) (string_store T)\<rparr>"
| "delete_key HashStore key T = T\<lparr>hash_store := filter (\<lambda>r. h_key r \<noteq> key) (hash_store T)\<rparr>"
| "delete_key ListStore key T = T\<lparr>list_store := filter (\<lambda>r. l_key r \<noteq> key) (list_store T)\<rparr>"
| "delete_key SetStore key T = T\<lparr>set_store := filter (\<lambda>r. m_key r \<noteq> key) (set_store T)\<rparr>"

text \<open>\<^verbatim>\<open>UPDATE table SET expiry = ? WHERE key = ?\<close>\<close>

fun update_expiry :: "table_name \<Rightarrow> string \<Rightarrow> int \<Rightarrow> tables \<Rightarrow> tables" where
  "update_expiry StringStore key e T =
     T\<lparr>string_store := map (\<lambda>r. if s_key r = key then r\<lparr>s_expiry := Some e\<rparr> else r) (string_store T)\<rparr>"
| "update_expiry HashStore key e T =
     T\<lparr>hash_store := map (\<lambda>r. if h_key r = key then r\<lparr>h_expiry := Some e\<rparr> else r) (hash_store T)\<rparr>"
| "update_expiry ListStore key e T =
     T\<lparr>list_store := map (\<lambda>r. if l_key r = key then r\<lparr>l_expiry := Some e\<rparr> else r) (list_store T)\<rparr>"
| "update_expiry SetStore key e T =
     T\<lparr>set_store := map (\<lambda>r. if m_key r = key then r\<lparr>m_expiry := Some e\<rparr> else r) (set_store T)\<rparr>"

text \<open>The expiry column of the rows \<^verbatim>\<open>WHERE key = ?\<close>, and
  \<^verbatim>\<open>SELECT expiry FROM table WHERE key = ? AND expiry IS NOT NULL LIMIT 1\<close>.\<close>

fun key_expiries :: "table_name \<Rightarrow> string \<Rightarrow> tables \<Rightarrow> int option list" where
  "key_expiries StringStore key T = map s_expiry (filter (\<lambda>r. s_key r = key) (string_store T))"
| "key_expiries HashStore key T = map h_expiry (filter (\<lambda>r. h_key r = key) (hash_store T))"
| "key_expiries ListStore key T = map l_expiry (filter (\<lambda>r. l_key r = key) (list_store T))"
| "key_expiries SetStore key T = map m_expiry (filter (\<lambda>r. m_key r = key) (set_store T))"

definition select_expiry :: "table_name \<Rightarrow> string \<Rightarrow> tables \<Rightarrow> int option" where
  "select_expiry t key T =
     (case List.map_filter id (key_expiries t key T) of [] \<Rightarrow> None | e # es \<Rightarrow> Some e)"

text \<open>\<^verbatim>\<open>DELETE FROM table WHERE expiry < ?\<close> (a NULL expiry never compares) and
  \<^verbatim>\<open>DELETE FROM table\<close>.\<close>

definition expired :: "int \<Rightarrow> int option \<Rightarrow> bool" where
  "expired now e = (case e of None \<Rightarrow> False | Some t \<Rightarrow> t < now)"

fun delete_expired :: "table_name \<Rightarrow> int \<Rightarrow> tables \<Rightarrow> tables" where
  "delete_expired StringStore now T =
     T\<lparr>string_store := filter (\<lambda>r. \<not> expired now (s_expiry r)) (string_store T)\<rparr>"
| "delete_expired HashStore now T =
     T\<lparr>hash_store := filter (\<lambda>r. \<not> expired now (h_expiry r)) (hash_store T)\<rparr>"
| "delete_expired ListStore now T =
     T\<lparr>list_store := filter (\<lambda>r. \<not> expired now (l_expiry r)) (list_store T)\<rparr>"
| "delete_expired SetStore now T =
     T\<lparr>set_store := filter (\<lambda>r. \<not> expired now (m_expiry r)) (set_store T)\<rparr>"

fun delete_all :: "table_name \<Rightarrow> tables \<Rightarrow> tables" where
  "delete_all StringStore T = T\<lparr>string_store := []\<rparr>"
| "delete_all HashStore T = T\<lparr>hash_store := []\<rparr>"
| "delete_all ListStore T = T\<lparr>list_store := []\<rparr>"
| "delete_all SetStore T = T\<lparr>set_store := []\<rparr>"

text \<open>\<^verbatim>\<open>Math.ceil(a / b)\<close> on integers, for a positive \<open>b\<close>.\<close>

definition ceil_div :: "int \<Rightarrow> int \<Rightarrow> int" where
  "ceil_div a b = - ((- a) div b)"

section \<open>Commands of the sqlite engine\<close>

text \<open>
  A command takes the engine and returns what its promise settles to (\<open>Inl\<close> the
  rejection) with the engine after it. \<^verbatim>\<open>src/redis-sqlite.ts\<close>, in source order.
\<close>

definition auth :: "string \<Rightarrow> engine \<Rightarrow> (error + reply) \<times> engine" where
  "auth pw s =
     (case password s of
        None \<Rightarrow> (Inl AuthNoPassword, s)
      | Some p \<Rightarrow>
          if p = [] then (Inl AuthNoPassword, s)
          else if pw = p then (Inr OK, s\<lparr>isAuthenticated := True\<rparr>)
          else (Inl AuthInvalidPassword, s))"

subsection \<open>Strings\<close>

definition set_cmd :: "string \<Rightarrow> string \<Rightarrow> engine \<Rightarrow> (error + reply) \<times> engine" where
  "set_cmd key v s =
     (case db s of
        None \<Rightarrow> (Inl DatabaseNotInitialized, s)
      | Some d \<Rightarrow> (Inr OK, put_tables (replace_string key v (tables_of s)) s))"

definition get :: "string \<Rightarrow> int \<Rightarrow> engine \<Rightarrow> (error + string option) \<times> engine" where
  "get key now s =
     (case db s of
        None \<Rightarrow> (Inl DatabaseNotInitialized, s)
      | Some d \<Rightarrow>
          (case select_string (tables_of s) key now of
             Some r \<Rightarrow> (Inr (Some (s_value r)), s)
           | None \<Rightarrow> (Inr None, s)))"

fun mget_loop :: "string list \<Rightarrow> int \<Rightarrow> engine \<Rightarrow> (error + string option list) \<times> engine" where
  "mget_loop [] now s = (Inr [], s)"
| "mget_loop (key # keys) now s =
     (case get key now s of
        (Inl e, s') \<Rightarrow> (Inl e, s')
      | (Inr r, s') \<Rightarrow>
          (case mget_loop keys now s' of
             (Inl e, s'') \<Rightarrow> (Inl e, s'')
           | (Inr rs, s'') \<Rightarrow> (Inr (r # rs), s'')))"

definition mget :: "string list \<Rightarrow> int \<Rightarrow> engine \<Rightarrow> (error + string option list) \<times> engine" where
  "mget keys now s =
     (case db s of
        None \<Rightarrow> (Inl DatabaseNotInitialized, s)
      | Some d \<Rightarrow> mget_loop keys now s)"

subsection \<open>Lists\<close>

definition lpush :: "string \<Rightarrow> string list \<Rightarrow> int \<Rightarrow> engine \<Rightarrow> (error + int) \<times> engine" where
  "lpush key vs now s =
     (case db s of
        None \<Rightarrow> (Inl DatabaseNotInitialized, s)
      | Some d \<Rightarrow>
          if string_live (tables_of s) key now then (Inl WrongType, s)
          else
            (case begin_guarded s of
               Inl e \<Rightarrow> (Inl e, s)
             | Inr s1 \<Rightarrow>
                 (case shift_list (int (length vs)) key (tables_of s1) of
                    Inl e \<Rightarrow> rollback_guarded e s1
                  | Inr T0 \<Rightarrow>
                      (case insert_lists key (zip (map int [0..<length vs]) (rev vs)) T0 of
                         (Some e, T) \<Rightarrow> rollback_guarded e (put_tables T s1)
                       | (None, T) \<Rightarrow>
                           (case commit_guarded (put_tables T s1) of
                              Inl e \<Rightarrow> rollback_guarded e (put_tables T s1)
                            | Inr s2 \<Rightarrow> (Inr (list_count (tables_of s2) key), s2))))))"

definition rpush :: "string \<Rightarrow> string list \<Rightarrow> int \<Rightarrow> engine \<Rightarrow> (error + int) \<times> engine" where
  "rpush key vs now s =
     (case db s of
        None \<Rightarrow> (Inl DatabaseNotInitialized, s)
      | Some d \<Rightarrow>
          if string_live (tables_of s) key now then (Inl WrongType, s)
          else
            (let currentLength = list_count (tables_of s) key in
             case begin_guarded s of
               Inl e \<Rightarrow> (Inl e, s)
             | Inr s1 \<Rightarrow>
                 (case insert_lists key
                         (zip (map (\<lambda>i. currentLength + int i) [0..<length vs]) vs)
                         (tables_of s1) of
                    (Some e, T) \<Rightarrow> rollback_guarded e (put_tables T s1)
                  | (None, T) \<Rightarrow>
                      (case commit_guarded (put_tables T s1) of
                         Inl e \<Rightarrow> rollback_guarded e (put_tables T s1)
                       | Inr s2 \<Rightarrow> (Inr (currentLength + int (length vs)), s2)))))"

definition lrange :: "string \<Rightarrow> int \<Rightarrow> int \<Rightarrow> engine \<Rightarrow> (error + string list) \<times> engine" where
  "lrange key start stop s =
     (case db s of
        None \<Rightarrow> (Inl DatabaseNotInitialized, s)
      | Some d \<Rightarrow>
          (let len = list_count (tables_of s) key;
               realStart = max 0 (if 0 \<le> start then start else len + start);
               realStop = min (len - 1) (if 0 \<le> stop then stop else len + stop)
           in if realStop < realStart then (Inr [], s)
              else (Inr (select_range (tables_of s) key realStart realStop), s)))"

text \<open>\<open>rpop\<close> takes the flag \<^verbatim>\<open>inTransaction\<close> of its second parameter (default
  false), not the field of the same name.\<close>

definition rpop :: "string \<Rightarrow> bool \<Rightarrow> engine \<Rightarrow> (error + string option) \<times> engine" where
  "rpop key inTx s =
     (case db s of
        None \<Rightarrow> (Inl DatabaseNotInitialized, s)
      | Some d \<Rightarrow>
          (case greatest_row (list_rows (tables_of s) key) of
             None \<Rightarrow> (Inr None, s)
           | Some r \<Rightarrow>
               if inTx
               then (Inr (Some (l_value r)),
                     put_tables (delete_list_index key (l_index r) (tables_of s)) s)
               else
                 (case db_run begin_transaction s of
                    Inl e \<Rightarrow> (Inl e, s)
                  | Inr s0 \<Rightarrow>
                      (let s1 = s0\<lparr>inTransaction := True\<rparr>;
                           s2 = put_tables (delete_list_index key (l_index r) (tables_of s1)) s1
                       in case db_run commit s2 of
                            Inr s3 \<Rightarrow> (Inr (Some (l_value r)), s3\<lparr>inTransaction := False\<rparr>)
                          | Inl e \<Rightarrow>
                              (case db_run rollback s2 of
                                 Inl e' \<Rightarrow> (Inl e', s2)
                               | Inr s3 \<Rightarrow> (Inl e, s3\<lparr>inTransaction := False\<rparr>))))))"

definition lpop :: "string \<Rightarrow> engine \<Rightarrow> (error + string option) \<times> engine" where
  "lpop key s =
     (case db s of
        None \<Rightarrow> (Inl DatabaseNotInitialized, s)
      | Some d \<Rightarrow>
          (case least_row (list_rows (tables_of s) key) of
             None \<Rightarrow> (Inr None, s)
           | Some r \<Rightarrow>
               (case begin_guarded s of
                  Inl e \<Rightarrow> (Inl e, s)
                | Inr s1 \<Rightarrow>
                    (let s2 = put_tables (delete_list_index key 0 (tables_of s1)) s1
                     in case shift_list (- 1) key (tables_of s2) of
                          Inl e \<Rightarrow> rollback_guarded e s2
                        | Inr T \<Rightarrow>
                            (case commit_guarded (put_tables T s2) of
                               Inl e \<Rightarrow> rollback_guarded e (put_tables T s2)
                             | Inr s3 \<Rightarrow> (Inr (Some (l_value r)), s3))))))"

definition rpoplpush :: "string \<Rightarrow> string \<Rightarrow> int \<Rightarrow> engine \<Rightarrow> (error + string option) \<times> engine" where
  "rpoplpush source destination now s =
     (case db s of
        None \<Rightarrow> (Inl DatabaseNotInitialized, s)
      | Some d \<Rightarrow>
          (case begin_guarded s of
             Inl e \<Rightarrow> (Inl e, s)
           | Inr s1 \<Rightarrow>
               (case rpop source True s1 of
                  (Inl e, s2) \<Rightarrow> rollback_guarded e s2
                | (Inr (Some v), s2) \<Rightarrow>
                    (case lpush destination [v] now s2 of
                       (Inl e, s3) \<Rightarrow> rollback_guarded e s3
                     | (Inr n, s3) \<Rightarrow>
                         (case commit_guarded s3 of
                            Inl e \<Rightarrow> rollback_guarded e s3
                          | Inr s4 \<Rightarrow> (Inr (Some v), s4)))
                | (Inr None, s2) \<Rightarrow>
                    if \<not> inTransaction s2 \<and> \<not> transactionMode s2
                    then (case db_run rollback s2 of
                            Inl e \<Rightarrow> rollback_guarded e s2
                          | Inr s3 \<Rightarrow> (Inr None, s3\<lparr>inTransaction := False\<rparr>))
                    else (Inr None, s2))))"

subsection \<open>Hashes\<close>

definition hset :: "string \<Rightarrow> string \<Rightarrow> string \<Rightarrow> engine \<Rightarrow> (error + int) \<times> engine" where
  "hset key field v s =
     (case db s of
        None \<Rightarrow> (Inl DatabaseNotInitialized, s)
      | Some d \<Rightarrow>
          (case replace_hash key field v (tables_of s) of
             (T, changes) \<Rightarrow> (Inr changes, put_tables T s)))"

fun hmset_loop :: "string \<Rightarrow> string list \<Rightarrow> engine \<Rightarrow> error option \<times> engine" where
  "hmset_loop key (f # v # rest) s =
     (case hset key f v s of
        (Inl e, s') \<Rightarrow> (Some e, s')
      | (Inr n, s') \<Rightarrow> hmset_loop key rest s')"
| "hmset_loop key rest s = (None, s)"

definition hmset :: "string \<Rightarrow> string list \<Rightarrow> engine \<Rightarrow> (error + reply) \<times> engine" where
  "hmset key fieldValues s =
     (case db s of
        None \<Rightarrow> (Inl DatabaseNotInitialized, s)
      | Some d \<Rightarrow>
          if length fieldValues mod 2 \<noteq> 0 then (Inl WrongNumberOfArguments, s)
          else
            (case db_run begin_transaction s of
               Inl e \<Rightarrow> (Inl e, s)
             | Inr s1 \<Rightarrow>
                 (case hmset_loop key fieldValues s1 of
                    (Some e, s2) \<Rightarrow>
                      (case db_run rollback s2 of
                         Inl e' \<Rightarrow> (Inl e', s2)
                       | Inr s3 \<Rightarrow> (Inl e, s3))
                  | (None, s2) \<Rightarrow>
                      (case db_run commit s2 of
                         Inr s3 \<Rightarrow> (Inr OK, s3)
                       | Inl e \<Rightarrow>
                           (case db_run rollback s2 of
                              Inl e' \<Rightarrow> (Inl e', s2)
                            | Inr s3 \<Rightarrow> (Inl e, s3))))))"

definition hget :: "string \<Rightarrow> string \<Rightarrow> int \<Rightarrow> engine \<Rightarrow> (error + string option) \<times> engine" where
  "hget key field now s =
     (case db s of
        None \<Rightarrow> (Inl DatabaseNotInitialized, s)
      | Some d \<Rightarrow>
          if string_live (tables_of s) key now then (Inl WrongType, s)
          else (Inr (select_hash (tables_of s) key field now), s))"

definition hdel :: "string \<Rightarrow> string list \<Rightarrow> engine \<Rightarrow> (error + int) \<times> engine" where
  "hdel key fs s =
     (case db s of
        None \<Rightarrow> (Inl DatabaseNotInitialized, s)
      | Some d \<Rightarrow>
          (case delete_hash_fields key fs (tables_of s) of
             (T, changes) \<Rightarrow> (Inr changes, put_tables T s)))"

subsection \<open>Keys\<close>

text \<open>The two nested loops of \<open>del\<close>: tables outside, keys inside;
  \<^verbatim>\<open>deleted += changes > 0 ? 1 : 0\<close>.\<close>

definition del_step :: "table_name \<times> string \<Rightarrow> int \<times> tables \<Rightarrow> int \<times> tables" where
  "del_step tk acc =
     (case tk of (t, key) \<Rightarrow>
        (case acc of (deleted, T) \<Rightarrow>
           (deleted + (if 0 < count_key t key T then 1 else 0), delete_key t key T)))"

definition del :: "string list \<Rightarrow> engine \<Rightarrow> (error + int) \<times> engine" where
  "del keys s =
     (case db s of
        None \<Rightarrow> (Inl DatabaseNotInitialized, s)
      | Some d \<Rightarrow>
          (case db_run begin_transaction s of
             Inl e \<Rightarrow> (Inl e, s)
           | Inr s1 \<Rightarrow>
               (case fold del_step (List.product store_names keys) (0, tables_of s1) of
                  (deleted, T) \<Rightarrow>
                    (case db_run commit (put_tables T s1) of
                       Inr s3 \<Rightarrow> (Inr deleted, s3)
                     | Inl e \<Rightarrow>
                         (case db_run rollback (put_tables T s1) of
                            Inl e' \<Rightarrow> (Inl e', put_tables T s1)
                          | Inr s3 \<Rightarrow> (Inl e, s3))))))"

definition exists :: "string list \<Rightarrow> engine \<Rightarrow> (error + int) \<times> engine" where
  "exists keys s =
     (case db s of
        None \<Rightarrow> (Inl DatabaseNotInitialized, s)
      | Some d \<Rightarrow>
          (Inr (int (length (filter
                  (\<lambda>key. list_ex (\<lambda>t. 0 < count_key t key (tables_of s)) store_names) keys))), s))"

definition hmget :: "string \<Rightarrow> string list \<Rightarrow> int \<Rightarrow> engine \<Rightarrow> (error + string option list) \<times> engine" where
  "hmget key fs now s =
     (case db s of
        None \<Rightarrow> (Inl DatabaseNotInitialized, s)
      | Some d \<Rightarrow> (Inr (map (\<lambda>f. select_hash (tables_of s) key f now) fs), s))"

subsection \<open>Sets\<close>

definition sismember :: "string \<Rightarrow> string \<Rightarrow> int \<Rightarrow> engine \<Rightarrow> (error + int) \<times> engine" where
  "sismember key member now s =
     (case db s of
        None \<Rightarrow> (Inl DatabaseNotInitialized, s)
      | Some d \<Rightarrow>
          (Inr (if list_ex (\<lambda>r. m_key r = key \<and> m_member r = member \<and> live now (m_expiry r))
                     (set_store (tables_of s))
                then 1 else 0), s))"

definition smembers :: "string \<Rightarrow> int \<Rightarrow> engine \<Rightarrow> (error + string list) \<times> engine" where
  "smembers key now s =
     (case db s of
        None \<Rightarrow> (Inl DatabaseNotInitialized, s)
      | Some d \<Rightarrow> (Inr (select_members (tables_of s) key now), s))"

definition sadd_step :: "string \<Rightarrow> string \<Rightarrow> int \<times> tables \<Rightarrow> int \<times> tables" where
  "sadd_step key member acc =
     (case acc of (added, T) \<Rightarrow>
        (case insert_ignore_set key member T of (T', changes) \<Rightarrow> (added + changes, T')))"

definition sadd :: "string \<Rightarrow> string list \<Rightarrow> int \<Rightarrow> engine \<Rightarrow> (error + int) \<times> engine" where
  "sadd key members now s =
     (case db s of
        None \<Rightarrow> (Inl DatabaseNotInitialized, s)
      | Some d \<Rightarrow>
          if string_live (tables_of s) key now then (Inl WrongType, s)
          else
            (case begin_guarded s of
               Inl e \<Rightarrow> (Inl e, s)
             | Inr s1 \<Rightarrow>
                 (case fold (sadd_step key) members (0, tables_of s1) of
                    (added, T) \<Rightarrow>
                      (case commit_guarded (put_tables T s1) of
                         Inl e \<Rightarrow> rollback_guarded e (put_tables T s1)
                       | Inr s2 \<Rightarrow> (Inr added, s2)))))"

definition srem :: "string \<Rightarrow> string list \<Rightarrow> engine \<Rightarrow> (error + int) \<times> engine" where
  "srem key members s =
     (case db s of
        None \<Rightarrow> (Inl DatabaseNotInitialized, s)
      | Some d \<Rightarrow>
          (case delete_set_members key members (tables_of s) of
             (T, changes) \<Rightarrow> (Inr changes, put_tables T s)))"

subsection \<open>Expiry\<close>

definition expire_step :: "string \<Rightarrow> int \<Rightarrow> table_name \<Rightarrow> int \<times> tables \<Rightarrow> int \<times> tables" where
  "expire_step key expiry t acc =
     (case acc of (updated, T) \<Rightarrow>
        (updated + int (count_key t key T), update_expiry t key expiry T))"

definition expire :: "string \<Rightarrow> int \<Rightarrow> int \<Rightarrow> engine \<Rightarrow> (error + int) \<times> engine" where
  "expire key seconds now s =
     (case db s of
        None \<Rightarrow> (Inl DatabaseNotInitialized, s)
      | Some d \<Rightarrow>
          (case fold (expire_step key (now + seconds * 1000)) store_names (0, tables_of s) of
             (updated, T) \<Rightarrow> (Inr (if 0 < updated then 1 else 0), put_tables T s)))"

fun ttl_loop :: "table_name list \<Rightarrow> string \<Rightarrow> int \<Rightarrow> tables \<Rightarrow> int" where
  "ttl_loop [] key now T = - 2"
| "ttl_loop (t # ts) key now T =
     (case select_expiry t key T of
        Some expiry \<Rightarrow>
          (let ttl = ceil_div (expiry - now) 1000 in if 0 < ttl then ttl else - 1)
      | None \<Rightarrow> ttl_loop ts key now T)"

definition ttl :: "string \<Rightarrow> int \<Rightarrow> engine \<Rightarrow> (error + int) \<times> engine" where
  "ttl key now s =
     (case db s of
        None \<Rightarrow> (Inl DatabaseNotInitialized, s)
      | Some d \<Rightarrow> (Inr (ttl_loop store_names key now (tables_of s)), s))"

subsection \<open>Database commands\<close>

definition flushdb :: "engine \<Rightarrow> (error + reply) \<times> engine" where
  "flushdb s =
     (case db s of
        None \<Rightarrow> (Inl DatabaseNotInitialized, s)
      | Some d \<Rightarrow>
          (case db_run begin_transaction s of
             Inl e \<Rightarrow> (Inl e, s)
           | Inr s1 \<Rightarrow>
               (let s2 = put_tables (fold delete_all store_names (tables_of s1)) s1
                in case db_run commit s2 of
                     Inr s3 \<Rightarrow> (Inr Void, s3)
                   | Inl e \<Rightarrow>
                       (case db_run rollback s2 of
                          Inl e' \<Rightarrow> (Inl e', s2)
                        | Inr s3 \<Rightarrow> (Inl e, s3)))))"

definition flushall :: "engine \<Rightarrow> (error + reply) \<times> engine" where
  "flushall s = flushdb s"

definition info :: "engine \<Rightarrow> (error + reply) \<times> engine" where
  "info s = (Inr (InfoReply [(''redis_version'', ''6.0.0'')]), s)"

subsection \<open>MULTI and EXEC\<close>

definition multi :: "engine \<Rightarrow> engine" where
  "multi s = s\<lparr>transactionMode := True, transactionCommands := []\<rparr>"

definition addCommand :: "command \<Rightarrow> engine \<Rightarrow> (error + unit) \<times> engine" where
  "addCommand c s =
     (if \<not> transactionMode s then (Inl NoTransactionInProgress, s)
      else (Inr (), s\<lparr>transactionCommands := transactionCommands s @ [c]\<rparr>))"

definition settle :: "('a \<Rightarrow> reply) \<Rightarrow> (error + 'a) \<times> engine \<Rightarrow> (error + reply) \<times> engine" where
  "settle f r = (case r of (Inl e, s) \<Rightarrow> (Inl e, s) | (Inr a, s) \<Rightarrow> (Inr (f a), s))"

text \<open>\<^verbatim>\<open>(this as any)[cmd.command](...cmd.args)\<close>: \<open>rpop\<close> gets no second argument,
  so its parameter \<^verbatim>\<open>inTransaction\<close> is false.\<close>

fun run :: "int \<Rightarrow> command \<Rightarrow> engine \<Rightarrow> (error + reply) \<times> engine" where
  "run now (Set k v) s = set_cmd k v s"
| "run now (Get k) s = settle Bulk (get k now s)"
| "run now (Mget ks) s = settle Array (mget ks now s)"
| "run now (Lpush k vs) s = settle Integer (lpush k vs now s)"
| "run now (Rpush k vs) s = settle Integer (rpush k vs now s)"
| "run now (Lrange k a b) s = settle (\<lambda>vs. Array (map Some vs)) (lrange k a b s)"
| "run now (Rpop k) s = settle Bulk (rpop k False s)"
| "run now (Lpop k) s = settle Bulk (lpop k s)"
| "run now (Rpoplpush a b) s = settle Bulk (rpoplpush a b now s)"
| "run now (Hset k f v) s = settle Integer (hset k f v s)"
| "run now (Hmset k fvs) s = hmset k fvs s"
| "run now (Hget k f) s = settle Bulk (hget k f now s)"
| "run now (Hdel k fs) s = settle Integer (hdel k fs s)"
| "run now (Del ks) s = settle Integer (del ks s)"
| "run now (Exists ks) s = settle Integer (exists ks s)"
| "run now (Hmget k fs) s = settle Array (hmget k fs now s)"
| "run now (Sismember k m) s = settle Integer (sismember k m now s)"
| "run now (Smembers k) s = settle (\<lambda>vs. Array (map Some vs)) (smembers k now s)"
| "run now (Sadd k ms) s = settle Integer (sadd k ms now s)"
| "run now (Srem k ms) s = settle Integer (srem k ms s)"
| "run now (Expire k n) s = settle Integer (expire k n now s)"
| "run now (Ttl k) s = settle Integer (ttl k now s)"
| "run now Flushdb s = flushdb s"
| "run now Flushall s = flushall s"
| "run now Info s = info s"
| "run now (Auth pw) s = auth pw s"

text \<open>The key \<^verbatim>\<open>cmd.args[0]\<close> of the commands \<open>exec\<close> checks against the string
  store before it runs them.\<close>

fun checked_key :: "command \<Rightarrow> string option" where
  "checked_key (Hget k f) = Some k"
| "checked_key (Hset k f v) = Some k"
| "checked_key (Hmset k fvs) = Some k"
| "checked_key c = None"

definition exec_command :: "int \<Rightarrow> command \<Rightarrow> engine \<Rightarrow> (error + reply) \<times> engine" where
  "exec_command now c s =
     (case checked_key c of
        Some k \<Rightarrow> if string_live (tables_of s) k now then (Inl WrongType, s) else run now c s
      | None \<Rightarrow> run now c s)"

fun exec_loop :: "int \<Rightarrow> command list \<Rightarrow> engine \<Rightarrow> (error + reply) list \<times> engine" where
  "exec_loop now [] s = ([], s)"
| "exec_loop now (c # cs) s =
     (case exec_command now c s of
        (r, s') \<Rightarrow> (case exec_loop now cs s' of (rs, s'') \<Rightarrow> (r # rs, s'')))"

definition exec_catch :: "error \<Rightarrow> engine \<Rightarrow> (error + 'a) \<times> engine" where
  "exec_catch e s =
     (if inTransaction s
      then (case db_run rollback s of
              Inl e' \<Rightarrow> (Inl e', s)
            | Inr s' \<Rightarrow>
                (Inl e, s'\<lparr>inTransaction := False, transactionMode := False,
                           transactionCommands := []\<rparr>))
      else (Inl e, s\<lparr>transactionMode := False, transactionCommands := []\<rparr>))"

definition exec :: "int \<Rightarrow> engine \<Rightarrow> (error + (error + reply) list) \<times> engine" where
  "exec now s =
     (case db s of
        None \<Rightarrow> (Inl DatabaseNotInitialized, s)
      | Some d \<Rightarrow>
          if \<not> transactionMode s then (Inl NoTransactionInProgress, s)
          else
            (case (if \<not> inTransaction s
                   then (case db_run begin_transaction s of
                           Inl e \<Rightarrow> Inl e
                         | Inr s' \<Rightarrow> Inr (s'\<lparr>inTransaction := True\<rparr>))
                   else Inr s) of
               Inl e \<Rightarrow> exec_catch e s
             | Inr s1 \<Rightarrow>
                 (case exec_loop now (transactionCommands s1) s1 of
                    (results, s2) \<Rightarrow>
                      (case db_run commit s2 of
                         Inl e \<Rightarrow> exec_catch e s2
                       | Inr s3 \<Rightarrow>
                           (Inr results,
                            s3\<lparr>inTransaction := False, transactionMode := False,
                               transactionCommands := []\<rparr>)))))"

subsection \<open>Connecting, closing and the expiry checker\<close>

text \<open>\<open>connect\<close> opens the database (\<open>file\<close> is what it holds: nothing for
  \<^verbatim>\<open>:memory:\<close>) and starts the interval timer \<open>timer\<close>.\<close>

definition connect :: "tables \<Rightarrow> nat \<Rightarrow> engine \<Rightarrow> engine" where
  "connect file timer s = s\<lparr>db := Some \<lparr>tbl = file, tx = None\<rparr>, expiryCheckerId := Some timer\<rparr>"

definition close :: "engine \<Rightarrow> engine" where
  "close s = s\<lparr>expiryCheckerId := None, db := None\<rparr>"

text \<open>The callback of the interval, and a tick of the clock: the callback runs only
  while the interval is set.\<close>

definition expiry_checker :: "int \<Rightarrow> engine \<Rightarrow> engine" where
  "expiry_checker now s =
     (case db s of
        None \<Rightarrow> s
      | Some d \<Rightarrow> put_tables (fold (\<lambda>t. delete_expired t now) store_names (tables_of s)) s)"

definition interval_tick :: "int \<Rightarrow> engine \<Rightarrow> engine" where
  "interval_tick now s =
     (case expiryCheckerId s of None \<Rightarrow> s | Some t \<Rightarrow> expiry_checker now s)"

definition new_engine :: "string option \<Rightarrow> engine" where
  "new_engine pw =
     \<lparr>db = None, inTransaction = False, transactionMode = False, transactionCommands = [],
      password = pw, isAuthenticated = False, blockingOperations = [],
      expiryCheckerId = None\<rparr>"

section \<open>BRPOPLPUSH and its waiters\<close>

text \<open>
  A call of \<open>brpoplpush\<close> that finds nothing to move returns a promise. The runtime
  around the engine holds the timeouts that are set (promise, source key, the time at
  which the timeout is due) and the promises that are resolved, with their values.
\<close>

record runtime =
  eng :: engine
  timers :: "(nat \<times> string \<times> int) list"
  resolved :: "(nat \<times> string option) list"
  next_promise :: nat

datatype outcome = Returned string | Pending nat

definition addBlockingOperation :: "string \<Rightarrow> resolver \<Rightarrow> engine \<Rightarrow> engine" where
  "addBlockingOperation key r s =
     (case map_of (blockingOperations s) key of
        None \<Rightarrow> s\<lparr>blockingOperations := AList.update key [r] (blockingOperations s)\<rparr>
      | Some rs \<Rightarrow> s\<lparr>blockingOperations := AList.update key (rs @ [r]) (blockingOperations s)\<rparr>)"

definition removeBlockingOperation :: "string \<Rightarrow> resolver \<Rightarrow> engine \<Rightarrow> engine" where
  "removeBlockingOperation key r s =
     (case map_of (blockingOperations s) key of
        None \<Rightarrow> s
      | Some rs \<Rightarrow> s\<lparr>blockingOperations := AList.update key (remove1 r rs) (blockingOperations s)\<rparr>)"

text \<open>The waiter registered under the source key is the wrapper closure
  (\<open>Wrapper p\<close>); the timeout callback asks to remove the promise's \<^verbatim>\<open>resolve\<close>
  (\<open>Resolve p\<close>) and resolves the promise with null.\<close>

definition brpoplpush :: "string \<Rightarrow> string \<Rightarrow> int \<Rightarrow> int \<Rightarrow> runtime \<Rightarrow> (error + outcome) \<times> runtime" where
  "brpoplpush source destination timeout now rt =
     (case rpoplpush source destination now (eng rt) of
        (Inl e, s) \<Rightarrow> (Inl e, rt\<lparr>eng := s\<rparr>)
      | (Inr (Some v), s) \<Rightarrow> (Inr (Returned v), rt\<lparr>eng := s\<rparr>)
      | (Inr None, s) \<Rightarrow>
          (Inr (Pending (next_promise rt)),
           rt\<lparr>eng := addBlockingOperation source (Wrapper (next_promise rt)) s,
              timers := timers rt @ [(next_promise rt, source, now + timeout * 1000)],
              next_promise := next_promise rt + 1\<rparr>))"

definition resolve :: "nat \<Rightarrow> string option \<Rightarrow> runtime \<Rightarrow> runtime" where
  "resolve p v rt =
     (case map_of (resolved rt) p of
        Some w \<Rightarrow> rt
      | None \<Rightarrow> rt\<lparr>resolved := resolved rt @ [(p, v)]\<rparr>)"

definition timer_fire :: "nat \<Rightarrow> int \<Rightarrow> runtime \<Rightarrow> runtime" where
  "timer_fire p now rt =
     (case map_of (timers rt) p of
        None \<Rightarrow> rt
      | Some (source, due) \<Rightarrow>
          if now < due then rt
          else resolve p None
                 (rt\<lparr>eng := removeBlockingOperation source (Resolve p) (eng rt),
                    timers := filter (\<lambda>t. fst t \<noteq> p) (timers rt)\<rparr>))"

text \<open>Everything that can happen to an engine, one event at a time.\<close>

datatype event =
    Call int command
  | CallBrpoplpush string string int int
  | CallMulti
  | CallAddCommand command
  | CallExec int
  | CallClose
  | IntervalTick int
  | TimerFire nat int

fun step :: "event \<Rightarrow> runtime \<Rightarrow> runtime" where
  "step (Call now c) rt = rt\<lparr>eng := snd (run now c (eng rt))\<rparr>"
| "step (CallBrpoplpush a b t now) rt = snd (brpoplpush a b t now rt)"
| "step CallMulti rt = rt\<lparr>eng := multi (eng rt)\<rparr>"
| "step (CallAddCommand c) rt = rt\<lparr>eng := snd (addCommand c (eng rt))\<rparr>"
| "step (CallExec now) rt = rt\<lparr>eng := snd (exec now (eng rt))\<rparr>"
| "step CallClose rt = rt\<lparr>eng := close (eng rt)\<rparr>"
| "step (IntervalTick now) rt = rt\<lparr>eng := interval_tick now (eng rt)\<rparr>"
| "step (TimerFire p now) rt = timer_fire p now rt"

section \<open>The typepersist variant\<close>

text \<open>
  \<^verbatim>\<open>src/redis-sqlite-typepersist.ts\<close> runs on the package typepersist, whose rows carry an
  \<open>id\<close>. Of its queries the model uses: \<^verbatim>\<open>where(f, Cmp.Eq, v)\<close> keeps the rows whose
  column equals \<open>v\<close>; \<^verbatim>\<open>and(f, Cmp.Gt, v)\<close> keeps, of those, the rows whose column is
  greater than \<open>v\<close> (a row without the column does not compare greater);
  \<^verbatim>\<open>first()\<close> gives the first row; \<^verbatim>\<open>insert\<close> adds a row under a new id, columns
  not given staying empty; \<^verbatim>\<open>update(t, id, cols)\<close> writes the given columns of that row.
\<close>

record tp_string_row =
  ts_id :: nat
  ts_key :: string
  ts_value :: "string option"
  ts_expiry :: "int option"

record tp_hash_row =
  th_id :: nat
  th_key :: string
  th_field :: string
  th_value :: "string option"
  th_expiry :: "int option"

record tp_db =
  tp_string_store :: "tp_string_row list"
  tp_hash_store :: "tp_hash_row list"
  tp_next_id :: nat

definition tp_empty :: tp_db where
  "tp_empty = \<lparr>tp_string_store = [], tp_hash_store = [], tp_next_id = 1\<rparr>"

definition cmp_gt :: "int option \<Rightarrow> int \<Rightarrow> bool" where
  "cmp_gt c v = (case c of None \<Rightarrow> False | Some x \<Rightarrow> v < x)"

definition tp_set :: "string \<Rightarrow> string \<Rightarrow> tp_db \<Rightarrow> reply \<times> tp_db" where
  "tp_set key v D =
     (case find (\<lambda>r. ts_key r = key) (tp_string_store D) of
        Some result \<Rightarrow>
          (OK, D\<lparr>tp_string_store :=
                  map (\<lambda>r. if ts_id r = ts_id result then r\<lparr>ts_value := Some v\<rparr> else r)
                    (tp_string_store D)\<rparr>)
      | None \<Rightarrow>
          (OK, D\<lparr>tp_string_store := tp_string_store D
                  @ [\<lparr>ts_id = tp_next_id D, ts_key = key, ts_value = Some v, ts_expiry = None\<rparr>],
                tp_next_id := tp_next_id D + 1\<rparr>))"

definition tp_get :: "string \<Rightarrow> int \<Rightarrow> tp_db \<Rightarrow> string option" where
  "tp_get key now D =
     (case find (\<lambda>r. ts_key r = key \<and> cmp_gt (ts_expiry r) now) (tp_string_store D) of
        Some result \<Rightarrow> ts_value result
      | None \<Rightarrow> None)"

definition tp_hset :: "string \<Rightarrow> string \<Rightarrow> string \<Rightarrow> tp_db \<Rightarrow> int \<times> tp_db" where
  "tp_hset key field v D =
     (case find (\<lambda>r. th_key r = key \<and> th_field r = field) (tp_hash_store D) of
        Some result \<Rightarrow>
          (1, D\<lparr>tp_hash_store :=
                 map (\<lambda>r. if th_id r = th_id result then r\<lparr>th_value := Some v\<rparr> else r)
                   (tp_hash_store D)\<rparr>)
      | None \<Rightarrow>
          (0, D\<lparr>tp_hash_store := tp_hash_store D
                 @ [\<lparr>th_id = tp_next_id D, th_key = key, th_field = field, th_value = Some v,
                     th_expiry = None\<rparr>],
               tp_next_id := tp_next_id D + 1\<rparr>))"

section \<open>Sequences of list commands\<close>

text \<open>The list commands LPUSH, RPUSH, LPOP, RPOP and LRANGE, each issued at its own
  clock reading, run one after the other; and the stored indices of a key.\<close>

datatype list_op =
    LPUSH string "string list"
  | RPUSH string "string list"
  | LPOP string
  | RPOP string
  | LRANGE string int int

fun list_command :: "list_op \<Rightarrow> command" where
  "list_command (LPUSH k vs) = Lpush k vs"
| "list_command (RPUSH k vs) = Rpush k vs"
| "list_command (LPOP k) = Lpop k"
| "list_command (RPOP k) = Rpop k"
| "list_command (LRANGE k a b) = Lrange k a b"

definition run_list_ops :: "(int \<times> list_op) list \<Rightarrow> engine \<Rightarrow> engine" where
  "run_list_ops ops s = fold (\<lambda>(now, c) s. snd (run now (list_command c) s)) ops s"

definition indices :: "tables \<Rightarrow> string \<Rightarrow> int list" where
  "indices T key = map l_index (list_rows T key)"

section \<open>Auxiliary definitions for the proofs\<close>

text \<open>The rows that a loop of inserts adds.\<close>

definition new_rows :: "string \<Rightarrow> (int \<times> string) list \<Rightarrow> list_row list" where
  "new_rows key ivs = map (\<lambda>(i, v). \<lparr>l_key = key, l_index = i, l_value = v, l_expiry = None\<rparr>) ivs"

text \<open>The waiters registered under a key, and the runtime right after a BRPOPLPUSH
  on an empty source at time 1000 with a timeout of 5 seconds.\<close>

definition waiting :: "runtime \<Rightarrow> string \<Rightarrow> resolver list" where
  "waiting rt key =
     (case map_of (blockingOperations (eng rt)) key of None \<Rightarrow> [] | Some rs \<Rightarrow> rs)"

definition waiting_runtime :: runtime where
  "waiting_runtime =
     snd (brpoplpush ''src'' ''dst'' 5 1000
       \<lparr>eng = connect empty_tables 0 (new_engine None), timers = [], resolved = [],
        next_promise = 0\<rparr>)"

section \<open>Basic facts\<close>

lemma find_app:
  "find P (xs @ ys) = (case find P xs of None \<Rightarrow> find P ys | Some x \<Rightarrow> Some x)"
  by (induction xs) auto

lemma find_filter_none: "(\<And>x. Q x \<Longrightarrow> \<not> P x) \<Longrightarrow> find P (filter Q xs) = None"
  by (induction xs) auto

lemma list_ex_find: "list_ex P xs \<longleftrightarrow> find P xs \<noteq> None"
  by (induction xs) auto

lemma db_connect: "db (connect file timer s) = Some \<lparr>tbl = file, tx = None\<rparr>"
  by (simp add: connect_def)

lemma tables_of_connect: "tables_of (connect file timer s) = file"
  by (simp add: tables_of_def connect_def)

lemma select_after_replace:
  "select_string (replace_string key v T) key now
     = Some \<lparr>s_key = key, s_value = v, s_expiry = None\<rparr>"
  by (simp add: select_string_def replace_string_def find_app find_filter_none live_def)

text \<open>On the sqlite engine, GET after SET gives the value back.\<close>

lemma set_get_roundtrip:
  assumes "db s = Some d"
  shows "fst (get key now (snd (set_cmd key v s))) = Inr (Some v)"
  using assms
  by (simp add: set_cmd_def get_def tables_of_def put_tables_def select_after_replace)

lemma db_close: "db (close s) = None"
  by (simp add: close_def)

lemma find_key_after_update:
  "find (\<lambda>r. ts_key r = key) xs = Some r \<Longrightarrow>
   find (\<lambda>r. ts_key r = key)
     (map (\<lambda>x. if ts_id x = ts_id r then x\<lparr>ts_value := Some v\<rparr> else x) xs)
   = Some (r\<lparr>ts_value := Some v\<rparr>)"
  by (induction xs) (auto split: if_splits)

lemma find_key_after_replace:
  "find (\<lambda>r. s_key r = key) (string_store (replace_string key v T))
     = Some \<lparr>s_key = key, s_value = v, s_expiry = None\<rparr>"
  by (simp add: replace_string_def find_app find_filter_none)

subsection \<open>The list table\<close>

lemma insert_lists_fresh:
  "distinct (map fst ivs) \<Longrightarrow>
   (\<And>r. r \<in> set (list_store T) \<Longrightarrow> l_key r = key \<Longrightarrow> l_index r \<notin> fst ` set ivs) \<Longrightarrow>
   insert_lists key ivs T = (None, T\<lparr>list_store := list_store T @ new_rows key ivs\<rparr>)"
proof (induction ivs arbitrary: T)
  case Nil
  then show ?case by (simp add: new_rows_def)
next
  case (Cons iv ivs)
  obtain i v where iv: "iv = (i, v)" by (cases iv)
  have fresh: "\<not> list_ex (\<lambda>r. l_key r = key \<and> l_index r = i) (list_store T)"
    using Cons.prems(2) iv by (auto simp: list_ex_iff)
  let ?T = "T\<lparr>list_store := list_store T @ [\<lparr>l_key = key, l_index = i, l_value = v, l_expiry = None\<rparr>]\<rparr>"
  have "insert_lists key ivs ?T = (None, ?T\<lparr>list_store := list_store ?T @ new_rows key ivs\<rparr>)"
  proof (rule Cons.IH)
    show "distinct (map fst ivs)" using Cons.prems(1) by simp
  next
    fix r assume r: "r \<in> set (list_store ?T)" "l_key r = key"
    show "l_index r \<notin> fst ` set ivs"
    proof (cases "r \<in> set (list_store T)")
      case True
      then show ?thesis using Cons.prems(2) [OF True r(2)] by simp
    next
      case False
      then have "l_index r = i" using r(1) by auto
      then show ?thesis using Cons.prems(1) iv by simp
    qed
  qed
  then show ?case
    using fresh iv by (simp add: insert_list_def new_rows_def)
qed

lemma list_rows_new_rows: "list_rows (T\<lparr>list_store := xs @ new_rows key ivs\<rparr>) key
   = filter (\<lambda>r. l_key r = key) xs @ new_rows key ivs"
  by (auto simp: list_rows_def new_rows_def filter_map o_def split_def filter_id_conv)

lemma begin_guarded_ok:
  assumes "db s = Some d" and "inTransaction s \<or> transactionMode s \<or> tx d = None"
  obtains s1 where "begin_guarded s = Inr s1" and "tables_of s1 = tbl d"
    and "db s1 \<noteq> None" and "inTransaction s1 \<or> transactionMode s1"
proof (cases "\<not> inTransaction s \<and> \<not> transactionMode s")
  case True
  let ?s1 = "s\<lparr>db := Some (d\<lparr>tx := Some (tbl d)\<rparr>), inTransaction := True\<rparr>"
  have "begin_guarded s = Inr ?s1"
    using True assms by (simp add: begin_guarded_def db_run_def begin_transaction_def)
  then show ?thesis
    by (rule that) (simp_all add: tables_of_def)
next
  case False
  then have "begin_guarded s = Inr s"
    by (auto simp: begin_guarded_def)
  moreover have "tables_of s = tbl d" "db s \<noteq> None" "inTransaction s \<or> transactionMode s"
    using assms(1) False by (auto simp: tables_of_def)
  ultimately show ?thesis
    by (rule that)
qed

lemma db_put_tables: "db (put_tables T s) = None \<longleftrightarrow> db s = None"
  by (simp add: put_tables_def split: option.splits)

lemma tables_of_put: "db s \<noteq> None \<Longrightarrow> tables_of (put_tables T s) = T"
  by (auto simp: tables_of_def put_tables_def)

lemma commit_guarded_in_tx:
  "inTransaction s \<or> transactionMode s \<Longrightarrow> commit_guarded (put_tables T s) = Inr (put_tables T s)"
  by (auto simp: commit_guarded_def put_tables_def split: option.splits)

lemma select_range_rows:
  "select_range T key lo hi
     = map l_value (sort_key l_index
         (filter (\<lambda>r. lo \<le> l_index r \<and> l_index r \<le> hi) (list_rows T key)))"
  by (simp add: select_range_def list_rows_def conj_commute cong: conj_cong)

lemma new_rows_index: "map l_index (new_rows key ivs) = map fst ivs"
  by (simp add: new_rows_def split_def)

lemma new_rows_value: "map l_value (new_rows key ivs) = map snd ivs"
  by (simp add: new_rows_def split_def)

lemma lrange_all_new_rows:
  assumes "list_rows T key = new_rows key (zip (map int [0..<length vs]) vs)"
    and "db s = Some d" and "tbl d = T"
  shows "fst (lrange key 0 (- 1) s) = Inr vs"
proof -
  let ?rows = "new_rows key (zip (map int [0..<length vs]) vs)"
  have idx: "map l_index ?rows = map int [0..<length vs]"
    by (simp add: new_rows_index)
  have len: "list_count T key = int (length vs)"
    by (simp add: list_count_def assms(1) new_rows_def)
  show ?thesis
  proof (cases "vs = []")
    case True
    then show ?thesis
      using assms len by (simp add: lrange_def tables_of_def)
  next
    case False
    have all: "filter (\<lambda>r. 0 \<le> l_index r \<and> l_index r \<le> int (length vs) - 1) ?rows = ?rows"
    proof -
      have "\<forall>i \<in> set (map l_index ?rows). 0 \<le> i \<and> i \<le> int (length vs) - 1"
        unfolding idx by auto
      then show ?thesis by (simp add: filter_id_conv)
    qed
    have "sorted (map l_index ?rows)"
      unfolding idx by (simp add: sorted_map strict_sorted_iff[symmetric] sorted_wrt_map)
    then have srt: "sort_key l_index ?rows = ?rows"
      by (rule sort_key_id_if_sorted)
    have "select_range T key 0 (int (length vs) - 1) = vs"
      unfolding select_range_rows assms(1) all srt new_rows_value by simp
    then show ?thesis
      using assms len False by (simp add: lrange_def tables_of_def Let_def)
  qed
qed

lemma shift_rows_no_key:
  "filter (\<lambda>r. l_key r = key) rest = [] \<Longrightarrow> shift_rows n key seen rest = Some (seen @ rest)"
  by (induction rest arbitrary: seen) (auto split: if_splits)

lemma shift_list_empty_key: "list_rows T key = [] \<Longrightarrow> shift_list n key T = Inr T"
  by (simp add: shift_list_def list_rows_def shift_rows_no_key)

text \<open>LPUSH on a key without rows: it returns the number of values, the rows of the key
  are the values in reverse argument order at indices 0, 1, ..., and LRANGE 0 -1 gives
  the values reversed.\<close>

lemma lpush_empty_key:
  assumes "db s = Some d" and "\<not> string_live (tbl d) key now"
    and "inTransaction s \<or> transactionMode s \<or> tx d = None"
    and "list_rows (tbl d) key = []"
  shows "fst (lpush key vs now s) = Inr (int (length vs))"
    and "list_rows (tables_of (snd (lpush key vs now s))) key
           = new_rows key (zip (map int [0..<length vs]) (rev vs))"
    and "fst (lrange key 0 (- 1) (snd (lpush key vs now s))) = Inr (rev vs)"
proof -
  obtain s1 where s1: "begin_guarded s = Inr s1" "tables_of s1 = tbl d"
    "db s1 \<noteq> None" "inTransaction s1 \<or> transactionMode s1"
    using begin_guarded_ok [OF assms(1) assms(3)] by blast
  define T' where
    "T' = (tbl d)\<lparr>list_store := list_store (tbl d)
             @ new_rows key (zip (map int [0..<length vs]) (rev vs))\<rparr>"
  have ins: "insert_lists key (zip (map int [0..<length vs]) (rev vs)) (tbl d) = (None, T')"
    unfolding T'_def
  proof (rule insert_lists_fresh)
    show "distinct (map fst (zip (map int [0..<length vs]) (rev vs)))"
      by (simp add: distinct_map inj_on_def)
  next
    fix r assume "r \<in> set (list_store (tbl d))" "l_key r = key"
    then have "r \<in> set (list_rows (tbl d) key)" by (simp add: list_rows_def)
    then show "l_index r \<notin> fst ` set (zip (map int [0..<length vs]) (rev vs))"
      using assms(4) by simp
  qed
  have rows: "list_rows T' key = new_rows key (zip (map int [0..<length vs]) (rev vs))"
    unfolding T'_def list_rows_new_rows using assms(4) by (simp add: list_rows_def)
  have res: "lpush key vs now s = (Inr (list_count T' key), put_tables T' s1)"
    using assms(1,2) s1 ins shift_list_empty_key [OF assms(4)]
    by (simp add: lpush_def tables_of_def [of s] commit_guarded_in_tx tables_of_put)
  show "fst (lpush key vs now s) = Inr (int (length vs))"
    by (simp add: res list_count_def rows new_rows_def)
  show r2: "list_rows (tables_of (snd (lpush key vs now s))) key
           = new_rows key (zip (map int [0..<length vs]) (rev vs))"
    using s1(3) by (simp add: res tables_of_put rows)
  have "db (snd (lpush key vs now s)) \<noteq> None"
    using s1(3) by (simp add: res db_put_tables)
  then obtain d' where d': "db (snd (lpush key vs now s)) = Some d'"
    by blast
  then have "tbl d' = tables_of (snd (lpush key vs now s))"
    by (simp add: tables_of_def)
  then show "fst (lrange key 0 (- 1) (snd (lpush key vs now s))) = Inr (rev vs)"
    using lrange_all_new_rows [OF _ d', where vs = "rev vs" and key = key] r2 by simp
qed

lemma snd_settle: "snd (settle f r) = snd r"
  by (simp add: settle_def split: prod.splits sum.splits)

lemma snd_lrange: "snd (lrange key a b s) = s"
  by (simp add: lrange_def Let_def split: option.splits)

subsection \<open>The waiter map is outside every command\<close>

lemma bo_db_run: "db_run f s = Inr s' \<Longrightarrow> blockingOperations s' = blockingOperations s"
  by (auto simp: db_run_def split: option.splits sum.splits)

lemma bo_put_tables: "blockingOperations (put_tables T s) = blockingOperations s"
  by (simp add: put_tables_def split: option.splits)

lemma bo_begin_guarded:
  "begin_guarded s = Inr s' \<Longrightarrow> blockingOperations s' = blockingOperations s"
  by (auto simp: begin_guarded_def split: if_splits sum.splits dest: bo_db_run)

lemma bo_commit_guarded:
  "commit_guarded s = Inr s' \<Longrightarrow> blockingOperations s' = blockingOperations s"
  by (auto simp: commit_guarded_def split: if_splits sum.splits dest: bo_db_run)

lemma bo_rollback_guarded:
  "blockingOperations (snd (rollback_guarded e s)) = blockingOperations s"
  by (auto simp: rollback_guarded_def split: if_splits sum.splits dest: bo_db_run)

lemma bo_set: "blockingOperations (snd (set_cmd k v s)) = blockingOperations s"
  by (simp add: set_cmd_def bo_put_tables split: option.splits)

lemma bo_get: "snd (get k now s) = s"
  by (simp add: get_def split: option.splits)

lemma bo_mget_loop: "snd (mget_loop ks now s) = s"
proof (induction ks arbitrary: s)
  case Nil
  then show ?case by simp
next
  case (Cons k ks)
  obtain g where g: "get k now s = (g, s)"
    using bo_get [of k now s] by (cases "get k now s") simp
  obtain r where r: "mget_loop ks now s = (r, s)"
    using Cons.IH [of s] by (cases "mget_loop ks now s") simp
  show ?case
    by (simp add: g r split: sum.splits)
qed

lemma bo_mget: "snd (mget ks now s) = s"
  by (simp add: mget_def bo_mget_loop split: option.splits)

lemma bo_lpush: "blockingOperations (snd (lpush k vs now s)) = blockingOperations s"
  by (auto simp: lpush_def bo_put_tables bo_rollback_guarded
        split: option.splits sum.splits prod.splits
        dest!: bo_begin_guarded bo_commit_guarded)

lemma bo_rpush: "blockingOperations (snd (rpush k vs now s)) = blockingOperations s"
  by (auto simp: rpush_def Let_def bo_put_tables bo_rollback_guarded
        split: option.splits sum.splits prod.splits
        dest!: bo_begin_guarded bo_commit_guarded)

lemma bo_rpop: "blockingOperations (snd (rpop k b s)) = blockingOperations s"
  by (auto simp: rpop_def Let_def bo_put_tables
        split: option.splits sum.splits prod.splits
        dest!: bo_db_run)

lemma bo_lpop: "blockingOperations (snd (lpop k s)) = blockingOperations s"
  by (auto simp: lpop_def Let_def bo_put_tables bo_rollback_guarded
        split: option.splits sum.splits prod.splits
        dest!: bo_begin_guarded bo_commit_guarded)

lemma bo_rpoplpush: "blockingOperations (snd (rpoplpush a b now s)) = blockingOperations s"
proof (cases "db s")
  case None
  then show ?thesis by (simp add: rpoplpush_def)
next
  case (Some d)
  show ?thesis
  proof (cases "begin_guarded s")
    case (Inl e)
    then show ?thesis using Some by (simp add: rpoplpush_def)
  next
    case (Inr s1)
    have s1: "blockingOperations s1 = blockingOperations s"
      using Inr by (rule bo_begin_guarded)
    obtain r s2 where r: "rpop a True s1 = (r, s2)"
      by (cases "rpop a True s1")
    have s2: "blockingOperations s2 = blockingOperations s"
      using bo_rpop [of a True s1] r s1 by simp
    show ?thesis
    proof (cases r)
      case (Inl e)
      then show ?thesis
        using Some Inr r s2 by (simp add: rpoplpush_def bo_rollback_guarded)
    next
      case (Inr v)
      show ?thesis
      proof (cases v)
        case None
        then show ?thesis
          using Some \<open>begin_guarded s = Inr s1\<close> r \<open>r = Inr v\<close> s2
          by (auto simp: rpoplpush_def bo_rollback_guarded split: sum.splits dest!: bo_db_run)
      next
        case (Some x)
        obtain q s3 where q: "lpush b [x] now s2 = (q, s3)"
          by (cases "lpush b [x] now s2")
        have s3: "blockingOperations s3 = blockingOperations s"
          using bo_lpush [of b "[x]" now s2] q s2 by simp
        show ?thesis
          using \<open>db s = Some d\<close> \<open>begin_guarded s = Inr s1\<close> r \<open>r = Inr v\<close> Some q s3
          by (auto simp: rpoplpush_def bo_rollback_guarded split: sum.splits
                dest!: bo_commit_guarded)
      qed
    qed
  qed
qed

lemma bo_hset: "blockingOperations (snd (hset k f v s)) = blockingOperations s"
  by (simp add: hset_def replace_hash_def bo_put_tables split: option.splits)

lemma bo_hmset_loop: "blockingOperations (snd (hmset_loop k fvs s)) = blockingOperations s"
proof (induction k fvs s rule: hmset_loop.induct)
  case (1 key f v rest s)
  obtain r s' where r: "hset key f v s = (r, s')"
    by (cases "hset key f v s")
  have s': "blockingOperations s' = blockingOperations s"
    using bo_hset [of key f v s] r by simp
  show ?case
  proof (cases r)
    case (Inl e)
    then show ?thesis using r s' by simp
  next
    case (Inr n)
    then show ?thesis using r s' "1.IH" by auto
  qed
qed simp_all

lemma bo_hmset: "blockingOperations (snd (hmset k fvs s)) = blockingOperations s"
proof (cases "db_run begin_transaction s")
  case (Inl e)
  then show ?thesis by (simp add: hmset_def split: option.splits)
next
  case (Inr s1)
  have s1: "blockingOperations s1 = blockingOperations s"
    using Inr by (rule bo_db_run)
  obtain r s2 where r: "hmset_loop k fvs s1 = (r, s2)"
    by (cases "hmset_loop k fvs s1")
  have s2: "blockingOperations s2 = blockingOperations s"
    using bo_hmset_loop [of k fvs s1] r s1 by simp
  show ?thesis
    using Inr r s2
    by (auto simp: hmset_def split: option.splits sum.splits dest!: bo_db_run)
qed

lemma bo_hget: "snd (hget k f now s) = s"
  by (simp add: hget_def split: option.splits)

lemma bo_hdel: "blockingOperations (snd (hdel k fs s)) = blockingOperations s"
  by (simp add: hdel_def delete_hash_fields_def bo_put_tables split: option.splits)

lemma bo_del: "blockingOperations (snd (del ks s)) = blockingOperations s"
  by (auto simp: del_def bo_put_tables split: option.splits sum.splits prod.splits
        dest!: bo_db_run)

lemma bo_exists: "snd (exists ks s) = s"
  by (simp add: exists_def split: option.splits)

lemma bo_hmget: "snd (hmget k fs now s) = s"
  by (simp add: hmget_def split: option.splits)

lemma bo_sismember: "snd (sismember k m now s) = s"
  by (simp add: sismember_def split: option.splits)

lemma bo_smembers: "snd (smembers k now s) = s"
  by (simp add: smembers_def split: option.splits)

lemma bo_sadd: "blockingOperations (snd (sadd k ms now s)) = blockingOperations s"
  by (auto simp: sadd_def bo_put_tables bo_rollback_guarded
        split: option.splits sum.splits prod.splits
        dest!: bo_begin_guarded bo_commit_guarded)

lemma bo_srem: "blockingOperations (snd (srem k ms s)) = blockingOperations s"
  by (simp add: srem_def delete_set_members_def bo_put_tables split: option.splits)

lemma bo_expire: "blockingOperations (snd (expire k n now s)) = blockingOperations s"
  by (simp add: expire_def bo_put_tables split: option.splits prod.splits)

lemma bo_ttl: "snd (ttl k now s) = s"
  by (simp add: ttl_def split: option.splits)

lemma bo_flushdb: "blockingOperations (snd (flushdb s)) = blockingOperations s"
  by (auto simp: flushdb_def Let_def bo_put_tables split: option.splits sum.splits
        dest!: bo_db_run)

lemma bo_auth: "blockingOperations (snd (auth pw s)) = blockingOperations s"
  by (simp add: auth_def split: option.splits)

lemma bo_run: "blockingOperations (snd (run now c s)) = blockingOperations s"
  by (cases c)
    (simp_all add: snd_settle bo_set bo_get bo_mget bo_lpush bo_rpush snd_lrange bo_rpop
      bo_lpop bo_rpoplpush bo_hset bo_hmset bo_hget bo_hdel bo_del bo_exists bo_hmget
      bo_sismember bo_smembers bo_sadd bo_srem bo_expire bo_ttl bo_flushdb flushall_def
      info_def bo_auth)

lemma bo_exec_command:
  "blockingOperations (snd (exec_command now c s)) = blockingOperations s"
  by (simp add: exec_command_def bo_run split: option.splits)

lemma bo_exec_loop: "blockingOperations (snd (exec_loop now cs s)) = blockingOperations s"
proof (induction cs arbitrary: s)
  case Nil
  then show ?case by simp
next
  case (Cons c cs)
  obtain r s' where r: "exec_command now c s = (r, s')"
    by (cases "exec_command now c s")
  have s': "blockingOperations s' = blockingOperations s"
    using bo_exec_command [of now c s] r by simp
  obtain rs s'' where l: "exec_loop now cs s' = (rs, s'')"
    by (cases "exec_loop now cs s'")
  have "blockingOperations s'' = blockingOperations s"
    using Cons.IH [of s'] l s' by simp
  then show ?case
    using r l by simp
qed

lemma bo_exec_catch:
  "blockingOperations (snd (exec_catch e s)) = blockingOperations s"
  by (auto simp: exec_catch_def split: sum.splits dest!: bo_db_run)

lemma bo_exec: "blockingOperations (snd (exec now s)) = blockingOperations s"
proof (cases "db s")
  case None
  then show ?thesis by (simp add: exec_def)
next
  case (Some d)
  show ?thesis
  proof (cases "transactionMode s")
    case False
    then show ?thesis using Some by (simp add: exec_def)
  next
    case True
    let ?b = "if \<not> inTransaction s
              then (case db_run begin_transaction s of
                      Inl e \<Rightarrow> Inl e
                    | Inr s' \<Rightarrow> Inr (s'\<lparr>inTransaction := True\<rparr>))
              else Inr s"
    show ?thesis
    proof (cases ?b)
      case (Inl e)
      then show ?thesis
        using Some True by (simp add: exec_def bo_exec_catch)
    next
      case (Inr s1)
      have s1: "blockingOperations s1 = blockingOperations s"
        using Inr by (auto split: if_splits sum.splits dest!: bo_db_run)
      obtain rs s2 where l: "exec_loop now (transactionCommands s1) s1 = (rs, s2)"
        by (cases "exec_loop now (transactionCommands s1) s1")
      have s2: "blockingOperations s2 = blockingOperations s"
        using bo_exec_loop [of now "transactionCommands s1" s1] l s1 by simp
      show ?thesis
        using Some True Inr l s2
        by (auto simp: exec_def bo_exec_catch split: sum.splits dest!: bo_db_run)
    qed
  qed
qed

lemma bo_close: "blockingOperations (close s) = blockingOperations s"
  by (simp add: close_def)

lemma bo_multi: "blockingOperations (multi s) = blockingOperations s"
  by (simp add: multi_def)

lemma bo_addCommand: "blockingOperations (snd (addCommand c s)) = blockingOperations s"
  by (simp add: addCommand_def)

lemma bo_interval_tick: "blockingOperations (interval_tick now s) = blockingOperations s"
  by (simp add: interval_tick_def expiry_checker_def bo_put_tables split: option.splits)

lemma map_of_add:
  "map_of (blockingOperations (addBlockingOperation key r s)) k
     = (if k = key
        then Some ((case map_of (blockingOperations s) key of None \<Rightarrow> [] | Some rs \<Rightarrow> rs) @ [r])
        else map_of (blockingOperations s) k)"
  by (simp add: addBlockingOperation_def update_conv' split: option.splits)

lemma map_of_remove:
  "map_of (blockingOperations (removeBlockingOperation key r s)) k
     = (if k = key then map_option (remove1 r) (map_of (blockingOperations s) key)
        else map_of (blockingOperations s) k)"
  by (simp add: removeBlockingOperation_def update_conv' split: option.splits)

lemma resolved_brpoplpush: "resolved (snd (brpoplpush a b t now rt)) = resolved rt"
  by (simp add: brpoplpush_def split: prod.splits sum.splits option.splits)

lemma waiting_brpoplpush:
  "Wrapper q \<in> set (waiting rt k) \<Longrightarrow> Wrapper q \<in> set (waiting (snd (brpoplpush a b t now rt)) k)"
proof -
  obtain r s where r: "rpoplpush a b now (eng rt) = (r, s)"
    by (cases "rpoplpush a b now (eng rt)")
  have "blockingOperations s = blockingOperations (eng rt)"
    using bo_rpoplpush [of a b now "eng rt"] r by simp
  then show "Wrapper q \<in> set (waiting rt k) \<Longrightarrow> ?thesis"
    using r
    by (auto simp: brpoplpush_def waiting_def map_of_add split: sum.splits option.splits)
qed

lemma waiting_remove:
  assumes "Wrapper q \<in> set (waiting rt k)"
  shows "Wrapper q \<in> set (waiting (rt\<lparr>eng := removeBlockingOperation key (Resolve p) (eng rt)\<rparr>) k)"
proof (cases "map_of (blockingOperations (eng rt)) k")
  case None
  then show ?thesis using assms by (simp add: waiting_def)
next
  case (Some rs)
  then show ?thesis using assms by (auto simp: waiting_def map_of_remove)
qed

lemma waiting_eng_only:
  "eng rt' = eng rt \<Longrightarrow> waiting rt' k = waiting rt k"
  by (simp add: waiting_def)

lemma waiting_timer_fire:
  assumes "Wrapper q \<in> set (waiting rt k)"
  shows "Wrapper q \<in> set (waiting (timer_fire p now rt) k)"
proof (cases "map_of (timers rt) p")
  case None
  then show ?thesis using assms by (simp add: timer_fire_def)
next
  case (Some sd)
  obtain src due where sd: "sd = (src, due)" by (cases sd)
  show ?thesis
  proof (cases "now < due")
    case True
    then show ?thesis using assms Some sd by (simp add: timer_fire_def)
  next
    case False
    let ?rt = "rt\<lparr>eng := removeBlockingOperation src (Resolve p) (eng rt)\<rparr>"
    have "waiting (timer_fire p now rt) k = waiting ?rt k"
      using Some sd False
      by (intro waiting_eng_only) (simp add: timer_fire_def resolve_def split: option.splits)
    then show ?thesis
      using waiting_remove [OF assms, of src p] by simp
  qed
qed

lemma waiting_step:
  "Wrapper q \<in> set (waiting rt k) \<Longrightarrow> Wrapper q \<in> set (waiting (step e rt) k)"
  by (cases e)
    (simp_all add: waiting_brpoplpush waiting_timer_fire,
     simp_all add: waiting_def bo_run bo_multi bo_addCommand bo_exec bo_close bo_interval_tick)

lemma resolved_timer_fire:
  "map_of (resolved rt) p = None \<Longrightarrow> map_of (resolved (timer_fire q now rt)) p = Some v
     \<Longrightarrow> q = p \<and> v = None"
  by (auto simp: timer_fire_def resolve_def split: option.splits prod.splits if_splits)

lemma resolved_step:
  assumes "map_of (resolved rt) p = None" and "map_of (resolved (step e rt)) p = Some v"
  shows "(\<exists>now. e = TimerFire p now) \<and> v = None"
  using assms
  by (cases e) (auto simp: resolved_brpoplpush dest: resolved_timer_fire)

lemma unresolved_trace:
  "map_of (resolved rt) p = None \<Longrightarrow> (\<And>now. TimerFire p now \<notin> set es)
     \<Longrightarrow> map_of (resolved (fold step es rt)) p = None"
proof (induction es arbitrary: rt)
  case Nil
  then show ?case by simp
next
  case (Cons e es)
  have "map_of (resolved (step e rt)) p = None"
  proof (cases "map_of (resolved (step e rt)) p")
    case (Some v)
    then have "\<exists>now. e = TimerFire p now"
      using resolved_step [OF Cons.prems(1)] by blast
    then show ?thesis using Cons.prems(2) by auto
  qed simp
  then show ?case
    using Cons.IH [of "step e rt"] Cons.prems(2) by simp
qed

lemma timer_fire_resolves:
  "map_of (resolved rt) p = None \<Longrightarrow> map_of (timers rt) p = Some (src, due) \<Longrightarrow> due \<le> now
     \<Longrightarrow> map_of (resolved (timer_fire p now rt)) p = Some None"
  by (simp add: timer_fire_def resolve_def map_add_def)

lemma brpoplpush_registers:
  assumes "brpoplpush a b t now rt = (Inr (Pending q), rt')"
  shows "q = next_promise rt \<and> Wrapper q \<in> set (waiting rt' a)
       \<and> (q, a, now + t * 1000) \<in> set (timers rt') \<and> resolved rt' = resolved rt"
proof -
  obtain r s where r: "rpoplpush a b now (eng rt) = (r, s)"
    by (cases "rpoplpush a b now (eng rt)")
  show ?thesis
    using assms r
    by (auto simp: brpoplpush_def waiting_def map_of_add split: sum.splits option.splits)
qed

lemma waiting_runtime_eq:
  "waiting_runtime =
     \<lparr>eng = \<lparr>db = Some \<lparr>tbl = empty_tables, tx = Some empty_tables\<rparr>,
             inTransaction = True, transactionMode = False, transactionCommands = [],
             password = None, isAuthenticated = False,
             blockingOperations = [(''src'', [Wrapper 0])], expiryCheckerId = Some 0\<rparr>,
      timers = [(0, ''src'', 6000)], resolved = [], next_promise = 1\<rparr>"
  by (simp add: waiting_runtime_def brpoplpush_def rpoplpush_def connect_def new_engine_def
        begin_guarded_def db_run_def begin_transaction_def rpop_def tables_of_def
        list_rows_def empty_tables_def addBlockingOperation_def)

subsection \<open>TTL where it answers as Redis does\<close>

text \<open>\<open>ceil_div\<close> is the ceiling of the quotient; a key with no row in any table
  gets -2; a string whose expiry lies ahead gets the remaining seconds, rounded up.\<close>

lemma ceil_div_ceiling: "ceil_div a b = \<lceil>real_of_int a / real_of_int b\<rceil>"
proof -
  have "\<lfloor>real_of_int (- a) / real_of_int b\<rfloor> = (- a) div b"
    by (rule floor_divide_of_int_eq)
  then show ?thesis
    by (simp add: ceil_div_def ceiling_def)
qed

lemma ttl_loop_missing:
  "(\<And>t. t \<in> set ts \<Longrightarrow> key_expiries t key T = []) \<Longrightarrow> ttl_loop ts key now T = - 2"
  by (induction ts) (simp_all add: select_expiry_def)

lemma ttl_missing_key:
  assumes "db s = Some d" and "\<forall>t \<in> set store_names. count_key t key (tbl d) = 0"
  shows "fst (ttl key now s) = Inr (- 2)"
proof -
  have "key_expiries t key (tbl d) = []" if "t \<in> set store_names" for t
    using assms(2) that by (cases t) (auto simp: store_names_def)
  then show ?thesis
    using assms(1) by (simp add: ttl_def tables_of_def ttl_loop_missing)
qed

lemma ttl_future_expiry:
  assumes "db s = Some d" and "select_expiry StringStore key (tbl d) = Some e" and "now < e"
  shows "fst (ttl key now s) = Inr (ceil_div (e - now) 1000)"
proof -
  have "0 < ceil_div (e - now) 1000"
    using assms(3) by (simp add: ceil_div_def)
  then show ?thesis
    using assms(1,2) by (simp add: ttl_def tables_of_def store_names_def Let_def)
qed

section \<open>The claims\<close>

text \<open>
  C1. GET after SET. On a connected sqlite engine the value comes back. The typepersist
  variant selects with \<^verbatim>\<open>.and("expiry", Cmp.Gt, now)\<close> alone, so the row that SET has
  just inserted, which has no expiry, is not selected: on an empty store SET then GET
  gives null.
\<close>

theorem get_after_set_variants:
  "fst (get key now (snd (set_cmd key v (connect file timer s)))) = Inr (Some v)
   \<and> tp_get key now (snd (tp_set key v tp_empty)) = None"
  by (simp add: set_get_roundtrip [OF db_connect]
        tp_get_def tp_set_def tp_empty_def cmp_gt_def)

text \<open>
  C5. EXEC against applying the commands directly. \<open>hmset\<close> issues its own
  \<^verbatim>\<open>BEGIN TRANSACTION\<close>; inside \<open>exec\<close>, which has begun one, that statement fails, the
  error lands in the result slot and nothing is stored. Applied directly to the same
  engine, the same command stores the field.
\<close>

theorem exec_hmset_differs:
  "fst (exec now (snd (addCommand (Hmset k [f, v])
          (multi (connect empty_tables timer (new_engine pw))))))
     = Inr [Inl SqlNestedTransaction]
   \<and> tables_of (snd (exec now (snd (addCommand (Hmset k [f, v])
          (multi (connect empty_tables timer (new_engine pw)))))))
     = empty_tables
   \<and> tables_of (snd (run now (Hmset k [f, v]) (connect empty_tables timer (new_engine pw))))
     = empty_tables\<lparr>hash_store := [\<lparr>h_key = k, h_field = f, h_value = v, h_expiry = None\<rparr>]\<rparr>"
  by (simp add: exec_def addCommand_def multi_def connect_def new_engine_def db_run_def
        begin_transaction_def commit_def rollback_def exec_command_def string_live_def
        tables_of_def put_tables_def empty_tables_def hmset_def hset_def replace_hash_def)

text \<open>
  C6. What HSET returns. The sqlite engine returns the \<^verbatim>\<open>changes\<close> of its
  \<^verbatim>\<open>INSERT OR REPLACE\<close>, which is 1 whether or not the field existed. The typepersist
  variant returns \<^verbatim>\<open>result ? 1 : 0\<close> where \<open>result\<close> is the row found before the
  write: 1 for a field that existed, 0 for a new one.
\<close>

theorem hset_return_values:
  "fst (hset key field v (connect file timer s)) = Inr 1
   \<and> fst (tp_hset key field v D)
       = (if list_ex (\<lambda>r. th_key r = key \<and> th_field r = field) (tp_hash_store D) then 1 else 0)"
  by (simp add: hset_def db_connect replace_hash_def tp_hset_def list_ex_find
        split: option.splits)

text \<open>
  C7. TTL of a key that exists and has no expiry. The loop of \<open>ttl\<close> looks only for
  rows whose expiry is not NULL; a key whose rows have none falls through to the final
  \<^verbatim>\<open>return -2\<close>.
\<close>

theorem ttl_without_expiry:
  "fst (ttl key now (snd (set_cmd key v (connect empty_tables timer s)))) = Inr (- 2)"
  by (simp add: ttl_def set_cmd_def db_connect tables_of_def put_tables_def
        replace_string_def empty_tables_def store_names_def select_expiry_def)

text \<open>
  C8. SET on a string that has an expiry. As stated, for both variants, the claim fails
  on the sqlite engine: \<^verbatim>\<open>INSERT OR REPLACE ... (key, value)\<close> writes a whole new row,
  whose expiry is NULL.
\<close>

theorem set_clears_expiry_counterexample:
  "string_store (tables_of (snd (set_cmd ''foo'' ''baz''
      (connect (empty_tables\<lparr>string_store :=
          [\<lparr>s_key = ''foo'', s_value = ''bar'', s_expiry = Some 5000\<rparr>]\<rparr>) 0 (new_engine None)))))
   = [\<lparr>s_key = ''foo'', s_value = ''baz'', s_expiry = None\<rparr>]"
  by (simp add: set_cmd_def connect_def new_engine_def tables_of_def put_tables_def
        replace_string_def empty_tables_def)

text \<open>
  C8, amended. In the typepersist variant SET on an existing key updates the column
  \<open>value\<close> of the row it found and nothing else of that row, so the expiry stays. In
  the sqlite engine the row of the key after SET has the new value and no expiry.
\<close>

theorem set_expiry_by_variant:
  assumes "find (\<lambda>r. ts_key r = key) (tp_string_store D) = Some r"
    and "db s = Some d"
  shows "find (\<lambda>r. ts_key r = key) (tp_string_store (snd (tp_set key v D)))
           = Some (r\<lparr>ts_value := Some v\<rparr>)
         \<and> find (\<lambda>r. s_key r = key) (string_store (tables_of (snd (set_cmd key v s))))
           = Some \<lparr>s_key = key, s_value = v, s_expiry = None\<rparr>"
  using assms
  by (simp add: tp_set_def find_key_after_update set_cmd_def tables_of_def put_tables_def
        find_key_after_replace)

theorem set_expiry_by_variant_witness:
  "find (\<lambda>r. ts_key r = ''foo'')
     (tp_string_store (snd (tp_set ''foo'' ''baz''
        (tp_empty\<lparr>tp_string_store :=
           [\<lparr>ts_id = 1, ts_key = ''foo'', ts_value = Some ''bar'', ts_expiry = Some 5000\<rparr>]\<rparr>))))
     = Some \<lparr>ts_id = 1, ts_key = ''foo'', ts_value = Some ''baz'', ts_expiry = Some 5000\<rparr>
   \<and> find (\<lambda>r. s_key r = ''foo'')
        (string_store (tables_of (snd (set_cmd ''foo'' ''baz''
          (connect (empty_tables\<lparr>string_store :=
             [\<lparr>s_key = ''foo'', s_value = ''bar'', s_expiry = Some 5000\<rparr>]\<rparr>) 0 (new_engine None))))))
     = Some \<lparr>s_key = ''foo'', s_value = ''baz'', s_expiry = None\<rparr>"
proof -
  let ?D = "tp_empty\<lparr>tp_string_store :=
     [\<lparr>ts_id = 1, ts_key = ''foo'', ts_value = Some ''bar'', ts_expiry = Some 5000\<rparr>]\<rparr>"
  have h1: "find (\<lambda>r. ts_key r = ''foo'') (tp_string_store ?D)
      = Some \<lparr>ts_id = 1, ts_key = ''foo'', ts_value = Some ''bar'', ts_expiry = Some 5000\<rparr>"
    by simp
  show ?thesis
    using set_expiry_by_variant [OF h1 db_connect, of "''baz''"] by simp
qed

text \<open>
  C2. Type exclusivity. \<open>set\<close> makes no type check: on a key that holds a list it
  succeeds, and the key then has rows in the string store and in the list store.
\<close>

theorem set_on_list_key_counterexample:
  "fst (set_cmd ''k'' ''v'' (snd (rpush ''k'' [''a''] 1000
          (connect empty_tables 0 (new_engine None))))) = Inr OK
   \<and> tables_of (snd (set_cmd ''k'' ''v'' (snd (rpush ''k'' [''a''] 1000
          (connect empty_tables 0 (new_engine None))))))
     = \<lparr>string_store = [\<lparr>s_key = ''k'', s_value = ''v'', s_expiry = None\<rparr>],
        hash_store = [],
        list_store = [\<lparr>l_key = ''k'', l_index = 0, l_value = ''a'', l_expiry = None\<rparr>],
        set_store = []\<rparr>"
  by (simp add: set_cmd_def rpush_def connect_def new_engine_def tables_of_def put_tables_def
        replace_string_def empty_tables_def string_live_def list_count_def list_rows_def
        begin_guarded_def commit_guarded_def db_run_def begin_transaction_def insert_list_def)

text \<open>
  C2, amended. In the sqlite engine the type check that exists is against the string
  store, and SET has none. On a connected engine SET answers OK for every key, whatever
  the other stores hold: afterwards the string store has the row (key, value, no expiry)
  and the list, hash and set stores are what they were, so a key that had rows there has
  rows in two stores. On a key that holds a live string, LPUSH, RPUSH, SADD and HGET, and
  HSET and HMSET inside EXEC, fail with WRONGTYPE and leave the engine as it was. The
  typepersist SET, too, answers OK without looking at another store.
\<close>

theorem set_unchecked_wrongtype_checked:
  assumes "db s = Some d"
  shows "fst (set_cmd key v s) = Inr OK
       \<and> find (\<lambda>r. s_key r = key) (string_store (tables_of (snd (set_cmd key v s))))
           = Some \<lparr>s_key = key, s_value = v, s_expiry = None\<rparr>
       \<and> list_store (tables_of (snd (set_cmd key v s))) = list_store (tbl d)
       \<and> hash_store (tables_of (snd (set_cmd key v s))) = hash_store (tbl d)
       \<and> set_store (tables_of (snd (set_cmd key v s))) = set_store (tbl d)
       \<and> (string_live (tbl d) key now \<longrightarrow>
            lpush key vs now s = (Inl WrongType, s)
          \<and> rpush key vs now s = (Inl WrongType, s)
          \<and> sadd key ms now s = (Inl WrongType, s)
          \<and> hget key f now s = (Inl WrongType, s)
          \<and> exec_command now (Hset key f v) s = (Inl WrongType, s)
          \<and> exec_command now (Hmset key fvs) s = (Inl WrongType, s))
       \<and> fst (tp_set key v D) = OK
       \<and> tp_hash_store (snd (tp_set key v D)) = tp_hash_store D"
proof -
  have "fst (tp_set key v D) = OK \<and> tp_hash_store (snd (tp_set key v D)) = tp_hash_store D"
    by (simp add: tp_set_def split: option.splits)
  then show ?thesis
    using assms
    by (simp add: set_cmd_def tables_of_def put_tables_def find_key_after_replace
          lpush_def rpush_def sadd_def hget_def exec_command_def)
      (simp add: replace_string_def)
qed

theorem set_unchecked_wrongtype_checked_witness:
  "fst (set_cmd ''k'' ''v''
     (connect (empty_tables\<lparr>string_store := [\<lparr>s_key = ''foo'', s_value = ''bar'', s_expiry = None\<rparr>],
                            list_store := [\<lparr>l_key = ''k'', l_index = 0, l_value = ''a'', l_expiry = None\<rparr>]\<rparr>)
        0 (new_engine None))) = Inr OK
   \<and> list_store (tables_of (snd (set_cmd ''k'' ''v''
     (connect (empty_tables\<lparr>string_store := [\<lparr>s_key = ''foo'', s_value = ''bar'', s_expiry = None\<rparr>],
                            list_store := [\<lparr>l_key = ''k'', l_index = 0, l_value = ''a'', l_expiry = None\<rparr>]\<rparr>)
        0 (new_engine None)))))
     = [\<lparr>l_key = ''k'', l_index = 0, l_value = ''a'', l_expiry = None\<rparr>]
   \<and> find (\<lambda>r. s_key r = ''k'') (string_store (tables_of (snd (set_cmd ''k'' ''v''
     (connect (empty_tables\<lparr>string_store := [\<lparr>s_key = ''foo'', s_value = ''bar'', s_expiry = None\<rparr>],
                            list_store := [\<lparr>l_key = ''k'', l_index = 0, l_value = ''a'', l_expiry = None\<rparr>]\<rparr>)
        0 (new_engine None))))))
     = Some \<lparr>s_key = ''k'', s_value = ''v'', s_expiry = None\<rparr>
   \<and> lpush ''foo'' [''abc''] 1000
     (connect (empty_tables\<lparr>string_store := [\<lparr>s_key = ''foo'', s_value = ''bar'', s_expiry = None\<rparr>],
                            list_store := [\<lparr>l_key = ''k'', l_index = 0, l_value = ''a'', l_expiry = None\<rparr>]\<rparr>)
        0 (new_engine None))
     = (Inl WrongType,
        connect (empty_tables\<lparr>string_store := [\<lparr>s_key = ''foo'', s_value = ''bar'', s_expiry = None\<rparr>],
                            list_store := [\<lparr>l_key = ''k'', l_index = 0, l_value = ''a'', l_expiry = None\<rparr>]\<rparr>)
        0 (new_engine None))
   \<and> message WrongType
       = ''WRONGTYPE Operation against a key holding the wrong kind of value''"
proof -
  let ?T = "empty_tables\<lparr>string_store := [\<lparr>s_key = ''foo'', s_value = ''bar'', s_expiry = None\<rparr>],
                            list_store := [\<lparr>l_key = ''k'', l_index = 0, l_value = ''a'', l_expiry = None\<rparr>]\<rparr>"
  have live: "string_live ?T ''foo'' 1000"
    by (simp add: string_live_def live_def)
  let ?s = "connect ?T 0 (new_engine None)"
  have h: "db ?s = Some \<lparr>tbl = ?T, tx = None\<rparr>"
    by (rule db_connect)
  show ?thesis
    using live
      set_unchecked_wrongtype_checked [OF h, where key = "''k''" and v = "''v''"]
      set_unchecked_wrongtype_checked [OF h, where key = "''foo''" and now = 1000
        and vs = "[''abc'']"]
    by simp
qed

text \<open>
  C10. Commands after \<open>close\<close>. \<open>info\<close> does not look at the database handle: after
  \<open>close\<close> it still answers.
\<close>

theorem info_after_close_counterexample:
  "fst (run 1000 Info (close (connect empty_tables 0 (new_engine None))))
     = Inr (InfoReply [(''redis_version'', ''6.0.0'')])"
  by (simp add: info_def)

text \<open>
  C10, amended. After \<open>close\<close>, every command other than INFO and AUTH, and also EXEC
  and BRPOPLPUSH, rejects with "Database not initialized" and leaves the engine as
  \<open>close\<close> left it; the interval of the expiry checker is cleared and a tick of the
  clock changes nothing. INFO, AUTH, MULTI and addCommand never look at the database
  handle: after \<open>close\<close> they answer what they answer before it, and change the engine
  as they do before it.
\<close>

theorem commands_after_close:
  assumes "c \<noteq> Info" and "\<And>pw. c \<noteq> Auth pw"
  shows "run now c (close s) = (Inl DatabaseNotInitialized, close s)
       \<and> exec now (close s) = (Inl DatabaseNotInitialized, close s)
       \<and> brpoplpush a b t now (rt\<lparr>eng := close (eng rt)\<rparr>)
           = (Inl DatabaseNotInitialized, rt\<lparr>eng := close (eng rt)\<rparr>)
       \<and> message DatabaseNotInitialized = ''Database not initialized''
       \<and> expiryCheckerId (close s) = None
       \<and> interval_tick now (close s) = close s
       \<and> run now Info (close s) = (fst (run now Info s), close (snd (run now Info s)))
       \<and> run now (Auth p) (close s) = (fst (run now (Auth p) s), close (snd (run now (Auth p) s)))
       \<and> multi (close s) = close (multi s)
       \<and> addCommand c' (close s) = (fst (addCommand c' s), close (snd (addCommand c' s)))"
proof -
  have "run now c (close s) = (Inl DatabaseNotInitialized, close s)"
    using assms
    by (cases c)
      (auto simp add: db_close settle_def set_cmd_def get_def mget_def lpush_def rpush_def
        lrange_def rpop_def lpop_def rpoplpush_def hset_def hmset_def hget_def hdel_def
        del_def exists_def hmget_def sismember_def smembers_def sadd_def srem_def
        expire_def ttl_def flushdb_def flushall_def)
  moreover have "exec now (close s) = (Inl DatabaseNotInitialized, close s)"
    by (simp add: exec_def db_close)
  moreover have "brpoplpush a b t now (rt\<lparr>eng := close (eng rt)\<rparr>)
           = (Inl DatabaseNotInitialized, rt\<lparr>eng := close (eng rt)\<rparr>)"
    by (simp add: brpoplpush_def rpoplpush_def db_close)
  moreover have "interval_tick now (close s) = close s"
    by (simp add: interval_tick_def close_def)
  moreover have "run now Info (close s) = (fst (run now Info s), close (snd (run now Info s)))"
    by (simp add: info_def)
  moreover have "run now (Auth p) (close s)
      = (fst (run now (Auth p) s), close (snd (run now (Auth p) s)))"
    by (simp add: auth_def close_def split: option.splits)
  moreover have "multi (close s) = close (multi s)"
    by (simp add: multi_def close_def)
  moreover have "addCommand c' (close s) = (fst (addCommand c' s), close (snd (addCommand c' s)))"
    by (simp add: addCommand_def close_def)
  ultimately show ?thesis
    by (simp add: close_def)
qed

theorem commands_after_close_witness:
  "run 1000 (Set ''foo'' ''bar'') (close (connect empty_tables 0 (new_engine None)))
     = (Inl DatabaseNotInitialized, close (connect empty_tables 0 (new_engine None)))
   \<and> interval_tick 1000 (close (connect empty_tables 0 (new_engine None)))
     = close (connect empty_tables 0 (new_engine None))"
  using commands_after_close
    [of "Set ''foo'' ''bar''" 1000 "connect empty_tables 0 (new_engine None)"]
  by simp

text \<open>
  C3. LPUSH. On an empty key LPUSH v1 v2 v3 returns 3 and LRANGE 0 -1 then gives
  v3, v2, v1. After RPUSH k a b, the \<^verbatim>\<open>UPDATE\<close> of LPUSH k x, which raises the
  indices by one, meets the primary key at its first row (a would go to 1, where b still
  is): LPUSH rejects with the constraint error, returns no length and stores nothing;
  the list is still a at 0 and b at 1.
\<close>

theorem lpush_rejects_on_longer_list:
  "fst (lpush ''list'' [''v1'', ''v2'', ''v3''] 1000 (connect empty_tables 0 (new_engine None)))
     = Inr 3
   \<and> fst (lrange ''list'' 0 (- 1)
        (snd (lpush ''list'' [''v1'', ''v2'', ''v3''] 1000
           (connect empty_tables 0 (new_engine None)))))
     = Inr [''v3'', ''v2'', ''v1'']
   \<and> fst (lpush ''k'' [''x''] 1001
        (snd (rpush ''k'' [''a'', ''b''] 1000 (connect empty_tables 0 (new_engine None)))))
     = Inl SqlUniqueConstraint
   \<and> list_store (tables_of (snd (lpush ''k'' [''x''] 1001
        (snd (rpush ''k'' [''a'', ''b''] 1000 (connect empty_tables 0 (new_engine None)))))))
     = [\<lparr>l_key = ''k'', l_index = 0, l_value = ''a'', l_expiry = None\<rparr>,
        \<lparr>l_key = ''k'', l_index = 1, l_value = ''b'', l_expiry = None\<rparr>]"
  by (simp add: lpush_def rpush_def lrange_def connect_def new_engine_def tables_of_def
        put_tables_def empty_tables_def string_live_def list_count_def list_rows_def
        begin_guarded_def commit_guarded_def rollback_guarded_def db_run_def
        begin_transaction_def insert_list_def shift_list_def select_range_def)

text \<open>
  C4. List contiguity. After LPUSH k a, LPUSH k b, LPUSH k c on an empty store the rows
  are, in rowid order, a at 2, b at 1, c at 0. LPOP k deletes the row at index 0; its
  \<^verbatim>\<open>UPDATE\<close> then moves a from 2 to 1, where b still is, and fails. The handler does
  not roll back, because the flag \<open>inTransaction\<close> is set; LPOP rejects, and the key is
  left with two rows at the indices 2 and 1.
\<close>

theorem lpop_leaves_gap:
  "fst (lpop ''k'' (run_list_ops
          [(1000, LPUSH ''k'' [''a'']), (1001, LPUSH ''k'' [''b'']), (1002, LPUSH ''k'' [''c''])]
          (connect empty_tables 0 (new_engine None))))
     = Inl SqlUniqueConstraint
   \<and> indices (tables_of (run_list_ops
          [(1000, LPUSH ''k'' [''a'']), (1001, LPUSH ''k'' [''b'']), (1002, LPUSH ''k'' [''c'']),
           (1003, LPOP ''k'')]
          (connect empty_tables 0 (new_engine None)))) ''k''
     = [2, 1]
   \<and> list_count (tables_of (run_list_ops
          [(1000, LPUSH ''k'' [''a'']), (1001, LPUSH ''k'' [''b'']), (1002, LPUSH ''k'' [''c'']),
           (1003, LPOP ''k'')]
          (connect empty_tables 0 (new_engine None)))) ''k''
     = 2"
  by (simp add: run_list_ops_def settle_def indices_def lpush_def lpop_def connect_def
        new_engine_def tables_of_def put_tables_def empty_tables_def string_live_def
        list_count_def list_rows_def begin_guarded_def commit_guarded_def
        rollback_guarded_def db_run_def begin_transaction_def insert_list_def shift_list_def
        delete_list_index_def)

text \<open>
  C9. BRPOPLPUSH waiters. No command of the engine (LPUSH, RPUSH, RPOPLPUSH and every
  other one, EXEC included) touches the waiter map or resolves a promise; a registered
  waiter is never taken out of the map by any event; a promise that is unresolved becomes
  resolved only by the firing of its own timeout, and then with null; so along any
  sequence of events without that firing it stays unresolved. A BRPOPLPUSH that finds
  nothing to move registers its waiter and sets its timeout, and the timeout, once due,
  resolves the promise with null.
\<close>

theorem waiter_completes_only_by_timeout:
  assumes "map_of (resolved rt) p = None"
  shows "blockingOperations (eng (step (Call now c) rt)) = blockingOperations (eng rt)
       \<and> resolved (step (Call now c) rt) = resolved rt
       \<and> (Wrapper q \<in> set (waiting rt k) \<longrightarrow> Wrapper q \<in> set (waiting (step e rt) k))
       \<and> (map_of (resolved (step e rt)) p = Some v \<longrightarrow> (\<exists>now'. e = TimerFire p now') \<and> v = None)
       \<and> ((\<forall>now'. TimerFire p now' \<notin> set es) \<longrightarrow> map_of (resolved (fold step es rt)) p = None)
       \<and> (map_of (timers rt) p = Some (src, due) \<and> due \<le> now
            \<longrightarrow> map_of (resolved (step (TimerFire p now) rt)) p = Some None)
       \<and> (brpoplpush a b t now rt = (Inr (Pending p'), rt')
            \<longrightarrow> Wrapper p' \<in> set (waiting rt' a) \<and> (p', a, now + t * 1000) \<in> set (timers rt')
                \<and> resolved rt' = resolved rt)"
  using assms
  by (auto simp: bo_run waiting_step unresolved_trace timer_fire_resolves
        dest: resolved_step brpoplpush_registers)

theorem waiter_completes_only_by_timeout_witness:
  "map_of (resolved waiting_runtime) 0 = None
   \<and> blockingOperations (eng (step (Call 6000 (Lpush ''src'' [''a''])) waiting_runtime))
       = [(''src'', [Wrapper 0])]
   \<and> map_of (resolved (fold step
         [Call 2000 (Lpush ''src'' [''a'']), Call 3000 (Rpush ''src'' [''b''])]
         waiting_runtime)) 0 = None
   \<and> map_of (resolved (step (TimerFire 0 6000) waiting_runtime)) 0 = Some None"
proof -
  have h: "map_of (resolved waiting_runtime) 0 = None"
    by (simp add: waiting_runtime_eq)
  show ?thesis
    using h waiter_completes_only_by_timeout [OF h, where now = 6000
        and c = "Lpush ''src'' [''a'']"
        and es = "[Call 2000 (Lpush ''src'' [''a'']), Call 3000 (Rpush ''src'' [''b''])]"
        and src = "''src''" and due = 6000]
    by (simp add: waiting_runtime_eq)
qed

end
